theory Spec2Isabelle
  imports Main "HOL-Library.Multiset" "HOL-Library.AList"
begin

section \<open>Data model\<close>

text \<open>
  The source file holds two variants of the generator, one after the other: the
  directory watcher (lines 1-645) and the single-file watcher (lines 646-1307).
  Their data types are the same. Names of the second variant carry the suffix
  \<open>_v2\<close>. The Go structs all have fields called \<open>Name\<close>, \<open>Type\<close> or
  \<open>Methods\<close>; the record fields below carry the initial of their struct.
\<close>

record FieldInfo =
  FName :: string
  FType :: string

record ParameterInfo =
  PName :: string
  PType :: string

record MethodInfo =
  MName :: string
  Parameters :: "ParameterInfo list"
  ReturnType :: string

record StructInfo =
  SName :: string
  Fields :: "FieldInfo list"
  Methods :: "MethodInfo list"

record InterfaceInfo =
  IName :: string
  IMethods :: "MethodInfo list"

record Relation =
  From :: string
  To :: string
  RType :: string
  Cardinality :: string

text \<open>
  \<open>map[string]*StructInfo\<close>: every entry points to a record of its own (made by
  \<open>processTypeSpec\<close>), so the map is modelled as a map to values, and a write
  through the pointer as an update of the entry.
\<close>

record UMLGenerator =
  structs :: "string \<rightharpoonup> StructInfo"
  interfaces :: "string \<rightharpoonup> InterfaceInfo"
  relations :: "Relation list"

definition NewUMLGenerator :: UMLGenerator where
  "NewUMLGenerator = \<lparr>structs = Map.empty, interfaces = Map.empty, relations = []\<rparr>"

definition Reset :: "UMLGenerator \<Rightarrow> UMLGenerator" where
  "Reset g = g\<lparr>structs := Map.empty, interfaces := Map.empty, relations := []\<rparr>"

subsection \<open>Strings\<close>

definition nl :: string where
  "nl = [CHR 0x0A]"

definition dquote :: string where
  "dquote = [CHR 0x22]"

definition HasPrefix :: "string \<Rightarrow> string \<Rightarrow> bool" where
  "HasPrefix s p = (take (length p) s = p)"

definition TrimPrefix :: "string \<Rightarrow> string \<Rightarrow> string" where
  "TrimPrefix s p = (if HasPrefix s p then drop (length p) s else s)"

fun Join :: "string list \<Rightarrow> string \<Rightarrow> string" where
  "Join [] sep = []"
| "Join [x] sep = x"
| "Join (x # y # ys) sep = x @ sep @ Join (y # ys) sep"

subsection \<open>Ranging over a Go map\<close>

text \<open>
  \<open>for k, v := range m\<close> visits every key of \<open>m\<close> once, in an order Go leaves
  unspecified and that may differ from one loop to the next. The order is a
  parameter of the model: the list \<open>ks\<close> of keys in the order of the visit.
  \<open>is_range m ks\<close> says that \<open>ks\<close> is such an order for \<open>m\<close>.
\<close>

definition is_range :: "('k \<rightharpoonup> 'v) \<Rightarrow> 'k list \<Rightarrow> bool" where
  "is_range m ks = (distinct ks \<and> set ks = dom m)"

definition rangeOver :: "('k \<rightharpoonup> 'v) \<Rightarrow> 'k list \<Rightarrow> ('k \<Rightarrow> 'v \<Rightarrow> 'b list) \<Rightarrow> 'b list list" where
  "rangeOver m ks body = map (\<lambda>k. case m k of None \<Rightarrow> [] | Some v \<Rightarrow> body k v) ks"

text \<open>
  The orders of the three map loops of one \<open>identifyRelations\<close> call: the struct
  loop of the member stage, the struct loop of the satisfaction stage, and the
  interface loop that runs inside the latter once per struct.
\<close>

record RangeOrder =
  memberStructs :: "string list"
  satisfactionStructs :: "string list"
  satisfactionInterfaces :: "string \<Rightarrow> string list"

definition range_ok :: "UMLGenerator \<Rightarrow> RangeOrder \<Rightarrow> bool" where
  "range_ok g ord =
     (is_range (structs g) (memberStructs ord) \<and>
      is_range (structs g) (satisfactionStructs ord) \<and>
      list_all (\<lambda>s. is_range (interfaces g) (satisfactionInterfaces ord s)) (satisfactionStructs ord))"

section \<open>The syntax tree\<close>

text \<open>
  The part of \<open>go/ast\<close> the generator inspects. A \<open>*ast.FieldList\<close> that may be
  \<open>nil\<close> is an optional list of fields; \<open>OtherExpr\<close> stands for every expression
  node the type switches do not name.
\<close>

datatype ChanDir = SEND | RECV | SENDRECV

datatype Expr =
    Ident string
  | StarExpr Expr
  | SelectorExpr Expr string
  | ArrayType "Expr option" Expr
  | MapType Expr Expr
  | InterfaceType "Field list option"
  | ChanType ChanDir Expr
  | FuncType "Field list option" "Field list option"
  | StructType "Field list option"
  | Ellipsis Expr
  | OtherExpr
and Field = Field (Names: "string list") (Type: Expr)

datatype Token = T_TYPE | T_IMPORT | T_CONST | T_VAR

datatype Spec = TypeSpec string Expr | ImportSpec | ValueSpec

text \<open>\<open>FuncDecl recv name params results\<close>: the receiver list, the name, and the
  parameter and result lists of the declaration's \<open>FuncType\<close>.\<close>

datatype Decl =
    GenDecl Token "Spec list"
  | FuncDecl "Field list option" string "Field list option" "Field list option"
  | BadDecl

section \<open>Declaration extraction\<close>

text \<open>\<open>getTypeString\<close> of the first variant (lines 331-366).\<close>

fun getTypeString :: "Expr \<Rightarrow> string" where
  "getTypeString (Ident name) = name"
| "getTypeString (StarExpr x) = ''*'' @ getTypeString x"
| "getTypeString (SelectorExpr x sel) = getTypeString x @ ''.'' @ sel"
| "getTypeString (ArrayType len elt) =
     (if len = None then ''[]'' @ getTypeString elt else ''[n]'' @ getTypeString elt)"
| "getTypeString (MapType k v) = ''map['' @ getTypeString k @ '']'' @ getTypeString v"
| "getTypeString (InterfaceType ms) = ''interface{}''"
| "getTypeString (ChanType dir v) =
     (case dir of SEND \<Rightarrow> ''chan<- '' @ getTypeString v
      | RECV \<Rightarrow> ''<-chan '' @ getTypeString v
      | SENDRECV \<Rightarrow> ''chan '' @ getTypeString v)"
| "getTypeString (FuncType ps rs) = ''func''"
| "getTypeString (StructType fs) = ''struct''"
| "getTypeString (Ellipsis elt) = ''...'' @ getTypeString elt"
| "getTypeString OtherExpr = ''unknown''"

text \<open>\<open>getTypeString\<close> of the second variant (lines 1063-1081).\<close>

fun getTypeString_v2 :: "Expr \<Rightarrow> string" where
  "getTypeString_v2 (Ident name) = name"
| "getTypeString_v2 (SelectorExpr x sel) =
     (case x of Ident name \<Rightarrow> name @ ''.'' @ sel | _ \<Rightarrow> ''unknown'')"
| "getTypeString_v2 (StarExpr x) = ''*'' @ getTypeString_v2 x"
| "getTypeString_v2 (ArrayType len elt) = ''[]'' @ getTypeString_v2 elt"
| "getTypeString_v2 (MapType k v) = ''map['' @ getTypeString_v2 k @ '']'' @ getTypeString_v2 v"
| "getTypeString_v2 (InterfaceType ms) = ''interface{}''"
| "getTypeString_v2 _ = ''unknown''"

text \<open>
  \<open>processTypeSpec\<close> and \<open>processMethod\<close> have the same text in both variants
  (lines 113-262 and 760-909) and differ only in the \<open>getTypeString\<close> they call,
  which is the parameter \<open>gts\<close> here.
\<close>

definition structFields :: "(Expr \<Rightarrow> string) \<Rightarrow> Field \<Rightarrow> FieldInfo list" where
  "structFields gts field =
     (let fieldType = gts (Type field)
      in if length (Names field) > 0
         then map (\<lambda>name. \<lparr>FName = name, FType = fieldType\<rparr>) (Names field)
         else [\<lparr>FName = fieldType, FType = fieldType\<rparr>])"

definition paramInfos :: "(Expr \<Rightarrow> string) \<Rightarrow> Field \<Rightarrow> ParameterInfo list" where
  "paramInfos gts param =
     (let paramType = gts (Type param)
      in if length (Names param) > 0
         then map (\<lambda>name. \<lparr>PName = name, PType = paramType\<rparr>) (Names param)
         else [\<lparr>PName = [], PType = paramType\<rparr>])"

definition makeMethod ::
  "(Expr \<Rightarrow> string) \<Rightarrow> string \<Rightarrow> Field list option \<Rightarrow> Field list option \<Rightarrow> MethodInfo" where
  "makeMethod gts methodName params results =
     \<lparr>MName = methodName,
      Parameters = (case params of None \<Rightarrow> [] | Some ps \<Rightarrow> concat (map (paramInfos gts) ps)),
      ReturnType = (case results of None \<Rightarrow> []
                    | Some rs \<Rightarrow> Join (map (\<lambda>result. gts (Type result)) rs) '', '')\<rparr>"

definition interfaceMethods :: "(Expr \<Rightarrow> string) \<Rightarrow> Field \<Rightarrow> MethodInfo list" where
  "interfaceMethods gts method =
     (case Names method of
        [] \<Rightarrow> []
      | methodName # _ \<Rightarrow>
          (case Type method of
             FuncType params results \<Rightarrow> [makeMethod gts methodName params results]
           | _ \<Rightarrow> []))"

definition processTypeSpec_with ::
  "(Expr \<Rightarrow> string) \<Rightarrow> UMLGenerator \<Rightarrow> string \<Rightarrow> Expr \<Rightarrow> UMLGenerator" where
  "processTypeSpec_with gts g typeName typ =
     (case typ of
        StructType fieldList \<Rightarrow>
          g\<lparr>structs := (structs g)(typeName \<mapsto>
               \<lparr>SName = typeName,
                Fields = (case fieldList of None \<Rightarrow> []
                          | Some fl \<Rightarrow> concat (map (structFields gts) fl)),
                Methods = []\<rparr>)\<rparr>
      | InterfaceType methodList \<Rightarrow>
          g\<lparr>interfaces := (interfaces g)(typeName \<mapsto>
               \<lparr>IName = typeName,
                IMethods = (case methodList of None \<Rightarrow> []
                            | Some ml \<Rightarrow> concat (map (interfaceMethods gts) ml))\<rparr>)\<rparr>
      | _ \<Rightarrow> g)"

text \<open>The receiver's type name; \<open>None\<close> is the \<open>default: return\<close> of the switch. A
  pointer to anything but an identifier leaves \<open>typeName\<close> empty.\<close>

definition receiverTypeName :: "Expr \<Rightarrow> string option" where
  "receiverTypeName e =
     (case e of
        StarExpr x \<Rightarrow> Some (case x of Ident name \<Rightarrow> name | _ \<Rightarrow> [])
      | Ident name \<Rightarrow> Some name
      | _ \<Rightarrow> None)"

definition processMethod_with ::
  "(Expr \<Rightarrow> string) \<Rightarrow> UMLGenerator \<Rightarrow> Field list option \<Rightarrow> string \<Rightarrow>
   Field list option \<Rightarrow> Field list option \<Rightarrow> UMLGenerator" where
  "processMethod_with gts g recv methodName params results =
     (case recv of
        None \<Rightarrow> g
      | Some [] \<Rightarrow> g
      | Some (receiver # _) \<Rightarrow>
          (case receiverTypeName (Type receiver) of
             None \<Rightarrow> g
           | Some typeName \<Rightarrow>
               (let methodInfo = makeMethod gts methodName params results
                in case structs g typeName of
                     Some structInfo \<Rightarrow>
                       g\<lparr>structs := (structs g)(typeName \<mapsto>
                            structInfo\<lparr>Methods := Methods structInfo @ [methodInfo]\<rparr>)\<rparr>
                   | None \<Rightarrow> g)))"

definition processSpec_with :: "(Expr \<Rightarrow> string) \<Rightarrow> UMLGenerator \<Rightarrow> Spec \<Rightarrow> UMLGenerator" where
  "processSpec_with gts g spec =
     (case spec of TypeSpec typeName typ \<Rightarrow> processTypeSpec_with gts g typeName typ | _ \<Rightarrow> g)"

definition processDecl_with :: "(Expr \<Rightarrow> string) \<Rightarrow> UMLGenerator \<Rightarrow> Decl \<Rightarrow> UMLGenerator" where
  "processDecl_with gts g decl =
     (case decl of
        GenDecl tok specs \<Rightarrow> if tok = T_TYPE then foldl (processSpec_with gts) g specs else g
      | FuncDecl recv methodName params results \<Rightarrow>
          if recv \<noteq> None then processMethod_with gts g recv methodName params results else g
      | BadDecl \<Rightarrow> g)"

definition processTypeSpec :: "UMLGenerator \<Rightarrow> string \<Rightarrow> Expr \<Rightarrow> UMLGenerator" where
  "processTypeSpec = processTypeSpec_with getTypeString"

definition processMethod ::
  "UMLGenerator \<Rightarrow> Field list option \<Rightarrow> string \<Rightarrow> Field list option \<Rightarrow> Field list option \<Rightarrow>
   UMLGenerator" where
  "processMethod = processMethod_with getTypeString"

definition processDecl :: "UMLGenerator \<Rightarrow> Decl \<Rightarrow> UMLGenerator" where
  "processDecl = processDecl_with getTypeString"

definition processDecl_v2 :: "UMLGenerator \<Rightarrow> Decl \<Rightarrow> UMLGenerator" where
  "processDecl_v2 = processDecl_with getTypeString_v2"

section \<open>Relation inference, first variant (lines 264-328)\<close>

definition fieldRelations :: "UMLGenerator \<Rightarrow> string \<Rightarrow> FieldInfo \<Rightarrow> Relation list" where
  "fieldRelations g structName field =
     (if structs g (FType field) \<noteq> None
      then [\<lparr>From = structName,
             To = TrimPrefix (FType field) ''*'',
             RType = (if FName field = FType field then ''extends''
                      else if HasPrefix (FType field) ''*'' then ''composition''
                      else ''aggregation''),
             Cardinality = ''1''\<rparr>]
      else []) @
     (if interfaces g (FType field) \<noteq> None
      then [\<lparr>From = structName, To = FType field, RType = ''implements'', Cardinality = ''''\<rparr>]
      else [])"

definition memberRelations :: "UMLGenerator \<Rightarrow> string list \<Rightarrow> Relation list" where
  "memberRelations g ks =
     concat (rangeOver (structs g) ks
       (\<lambda>structName structInfo. concat (map (fieldRelations g structName) (Fields structInfo))))"

definition hasMethod :: "MethodInfo list \<Rightarrow> string \<Rightarrow> bool" where
  "hasMethod ms name = list_ex (\<lambda>structMethod. MName structMethod = name) ms"

definition implementsInterface :: "StructInfo \<Rightarrow> InterfaceInfo \<Rightarrow> bool" where
  "implementsInterface structInfo interfaceInfo =
     list_all (\<lambda>interfaceMethod. hasMethod (Methods structInfo) (MName interfaceMethod))
       (IMethods interfaceInfo)"

definition satisfactionRelations ::
  "UMLGenerator \<Rightarrow> string list \<Rightarrow> (string \<Rightarrow> string list) \<Rightarrow> Relation list" where
  "satisfactionRelations g ks iks =
     concat (rangeOver (structs g) ks
       (\<lambda>structName structInfo. concat (rangeOver (interfaces g) (iks structName)
          (\<lambda>interfaceName interfaceInfo.
             if implementsInterface structInfo interfaceInfo \<and> length (IMethods interfaceInfo) > 0
             then [\<lparr>From = structName, To = interfaceName, RType = ''implements'',
                    Cardinality = ''''\<rparr>]
             else []))))"

text \<open>The relations one call appends, in the order it appends them.\<close>

definition inferred :: "RangeOrder \<Rightarrow> UMLGenerator \<Rightarrow> Relation list" where
  "inferred ord g =
     memberRelations g (memberStructs ord) @
     satisfactionRelations g (satisfactionStructs ord) (satisfactionInterfaces ord)"

definition identifyRelations :: "RangeOrder \<Rightarrow> UMLGenerator \<Rightarrow> UMLGenerator" where
  "identifyRelations ord g = g\<lparr>relations := relations g @ inferred ord g\<rparr>"

section \<open>Relation inference, second variant (lines 911-975)\<close>

definition fieldRelations_v2 :: "UMLGenerator \<Rightarrow> string \<Rightarrow> FieldInfo \<Rightarrow> Relation list" where
  "fieldRelations_v2 g structName field =
     (if structs g (FType field) \<noteq> None
      then [\<lparr>From = structName,
             To = FType field,
             RType = (if FName field = FType field then ''composition'' else ''aggregation''),
             Cardinality = ''1''\<rparr>]
      else []) @
     (if HasPrefix (FType field) ''[]''
      then (let baseType = TrimPrefix (FType field) ''[]''
            in if structs g baseType \<noteq> None
               then [\<lparr>From = structName, To = baseType, RType = ''aggregation'',
                      Cardinality = ''*''\<rparr>]
               else [])
      else [])"

definition memberRelations_v2 :: "UMLGenerator \<Rightarrow> string list \<Rightarrow> Relation list" where
  "memberRelations_v2 g ks =
     concat (rangeOver (structs g) ks
       (\<lambda>structName structInfo. concat (map (fieldRelations_v2 g structName) (Fields structInfo))))"

text \<open>
  The satisfaction stage of the second variant is the loop of the first one; its
  relation literal leaves \<open>Cardinality\<close> out, which Go sets to the empty string.
\<close>

definition inferred_v2 :: "RangeOrder \<Rightarrow> UMLGenerator \<Rightarrow> Relation list" where
  "inferred_v2 ord g =
     memberRelations_v2 g (memberStructs ord) @
     satisfactionRelations g (satisfactionStructs ord) (satisfactionInterfaces ord)"

definition identifyRelations_v2 :: "RangeOrder \<Rightarrow> UMLGenerator \<Rightarrow> UMLGenerator" where
  "identifyRelations_v2 ord g = g\<lparr>relations := relations g @ inferred_v2 ord g\<rparr>"

section \<open>Parsing files\<close>

datatype error =
    ParseFailure string string
  | WalkFailure string
  | MkdirFailure string
  | WriteFailure string
  | PlantUMLFailure string string

text \<open>
  What one pass sees of the world outside: the result of \<open>findGoFiles\<close> on the
  watched directory, the result of \<open>parser.ParseFile\<close> on each path (\<open>Inl\<close> is
  the parser's error), and the orders in which the map loops that run while that
  path is processed visit the registry.
\<close>

record World =
  findGoFiles :: "string + string list"
  ParseFile :: "string \<Rightarrow> string + Decl list"
  rangeOrder :: "string \<Rightarrow> RangeOrder"

text \<open>
  A Go method that mutates the generator and returns an \<open>error\<close> is a function to
  the generator it leaves behind and the error, \<open>None\<close> for \<open>nil\<close>.
\<close>

definition ParseGoFile :: "World \<Rightarrow> UMLGenerator \<Rightarrow> string \<Rightarrow> UMLGenerator \<times> error option" where
  "ParseGoFile w g filePath =
     (case ParseFile w filePath of
        Inl err \<Rightarrow> (g, Some (ParseFailure filePath err))
      | Inr decls \<Rightarrow>
          (identifyRelations (rangeOrder w filePath) (foldl processDecl g decls), None))"

definition ParseGoFile_v2 :: "World \<Rightarrow> UMLGenerator \<Rightarrow> string \<Rightarrow> UMLGenerator \<times> error option" where
  "ParseGoFile_v2 w g filePath =
     (case ParseFile w filePath of
        Inl err \<Rightarrow> (g, Some (ParseFailure filePath err))
      | Inr decls \<Rightarrow>
          (identifyRelations_v2 (rangeOrder w filePath) (foldl processDecl_v2 g decls), None))"

fun parseFiles :: "World \<Rightarrow> UMLGenerator \<Rightarrow> string list \<Rightarrow> UMLGenerator \<times> error option" where
  "parseFiles w g [] = (g, None)"
| "parseFiles w g (filePath # rest) =
     (case ParseGoFile w g filePath of
        (g', Some err) \<Rightarrow> (g', Some err)
      | (g', None) \<Rightarrow> parseFiles w g' rest)"

definition GenerateUMLFromDirectory :: "World \<Rightarrow> UMLGenerator \<Rightarrow> UMLGenerator \<times> error option" where
  "GenerateUMLFromDirectory w g =
     (let g0 = Reset g
      in case findGoFiles w of
           Inl err \<Rightarrow> (g0, Some (WalkFailure err))
         | Inr goFiles \<Rightarrow> parseFiles w g0 goFiles)"

section \<open>Rendering, first variant (lines 411-490)\<close>

definition formatParams :: "ParameterInfo list \<Rightarrow> string list" where
  "formatParams ps =
     map (\<lambda>param. if PName param \<noteq> '''' then PName param @ '': '' @ PType param
                  else PType param) ps"

definition fieldLines :: "FieldInfo list \<Rightarrow> string" where
  "fieldLines fs =
     concat (map (\<lambda>field. if FName field \<noteq> FType field
                           then ''    +'' @ FName field @ '': '' @ FType field @ nl
                           else []) fs)"

definition methodLine :: "MethodInfo \<Rightarrow> string" where
  "methodLine method =
     (if ReturnType method \<noteq> ''''
      then ''    +'' @ MName method @ ''('' @ Join (formatParams (Parameters method)) '', '' @
           ''): '' @ ReturnType method @ nl
      else ''    +'' @ MName method @ ''('' @ Join (formatParams (Parameters method)) '', '' @
           '')'' @ nl)"

definition classBlock :: "StructInfo \<Rightarrow> string" where
  "classBlock structInfo =
     ''class '' @ SName structInfo @ '' {'' @ nl @
     fieldLines (Fields structInfo) @
     concat (map methodLine (Methods structInfo)) @
     ''}'' @ nl @ nl"

definition interfaceBlock :: "InterfaceInfo \<Rightarrow> string" where
  "interfaceBlock interfaceInfo =
     ''interface '' @ IName interfaceInfo @ '' {'' @ nl @
     concat (map methodLine (IMethods interfaceInfo)) @
     ''}'' @ nl @ nl"

definition relationLine :: "Relation \<Rightarrow> string" where
  "relationLine relation =
     (if RType relation = ''extends'' then To relation @ '' <|-- '' @ From relation @ nl
      else if RType relation = ''implements'' then To relation @ '' <|.. '' @ From relation @ nl
      else if RType relation = ''aggregation'' then From relation @ '' o-- '' @ To relation @ nl
      else if RType relation = ''composition'' then From relation @ '' *-- '' @ To relation @ nl
      else [])"

definition classBlocks :: "UMLGenerator \<Rightarrow> string list \<Rightarrow> string list" where
  "classBlocks g ks = rangeOver (structs g) ks (\<lambda>_ structInfo. classBlock structInfo)"

definition interfaceBlocks :: "UMLGenerator \<Rightarrow> string list \<Rightarrow> string list" where
  "interfaceBlocks g ks = rangeOver (interfaces g) ks (\<lambda>_ interfaceInfo. interfaceBlock interfaceInfo)"

text \<open>\<open>ks\<close> and \<open>iks\<close> are the orders of the struct loop and of the interface loop.\<close>

definition GeneratePlantUML :: "string list \<Rightarrow> string list \<Rightarrow> UMLGenerator \<Rightarrow> string" where
  "GeneratePlantUML ks iks g =
     ''@startuml'' @ nl @ nl @
     concat (classBlocks g ks) @
     concat (interfaceBlocks g iks) @
     concat (map relationLine (relations g)) @
     nl @ ''@enduml''"

section \<open>Rendering, second variant (lines 977-1060)\<close>

definition fieldLines_v2 :: "FieldInfo list \<Rightarrow> string" where
  "fieldLines_v2 fs =
     concat (map (\<lambda>field. if FName field = FType field then []
                           else ''  +'' @ FName field @ '': '' @ FType field @ nl) fs)"

definition methodLine_v2 :: "MethodInfo \<Rightarrow> string" where
  "methodLine_v2 method =
     (let returnStr = (if ReturnType method \<noteq> '''' then '': '' @ ReturnType method else '''')
      in ''  +'' @ MName method @ ''('' @ Join (formatParams (Parameters method)) '', '' @ '')'' @
         returnStr @ nl)"

definition classBlock_v2 :: "StructInfo \<Rightarrow> string" where
  "classBlock_v2 structInfo =
     ''class '' @ SName structInfo @ '' {'' @ nl @
     fieldLines_v2 (Fields structInfo) @
     concat (map methodLine_v2 (Methods structInfo)) @
     ''}'' @ nl @ nl"

definition interfaceBlock_v2 :: "InterfaceInfo \<Rightarrow> string" where
  "interfaceBlock_v2 interfaceInfo =
     ''interface '' @ IName interfaceInfo @ '' {'' @ nl @
     concat (map methodLine_v2 (IMethods interfaceInfo)) @
     ''}'' @ nl @ nl"

definition relationLine_v2 :: "Relation \<Rightarrow> string" where
  "relationLine_v2 relation =
     (if RType relation = ''composition'' then From relation @ '' *-- '' @ To relation @ nl
      else if RType relation = ''aggregation''
      then (if Cardinality relation = ''*''
            then From relation @ '' o-- '' @ dquote @ Cardinality relation @ dquote @ '' '' @
                 To relation @ nl
            else From relation @ '' o-- '' @ To relation @ nl)
      else if RType relation = ''implements'' then From relation @ '' ..|> '' @ To relation @ nl
      else [])"

definition GeneratePlantUML_v2 :: "string list \<Rightarrow> string list \<Rightarrow> UMLGenerator \<Rightarrow> string" where
  "GeneratePlantUML_v2 ks iks g =
     ''@startuml'' @ nl @ nl @
     concat (rangeOver (structs g) ks (\<lambda>_ structInfo. classBlock_v2 structInfo)) @
     concat (rangeOver (interfaces g) iks (\<lambda>_ interfaceInfo. interfaceBlock_v2 interfaceInfo)) @
     concat (map relationLine_v2 (relations g)) @
     nl @ ''@enduml''"

section \<open>Writing the diagram and watching the directory (lines 495-628)\<close>

text \<open>
  What the process prints or writes is a list of events. The events are the
  failure reports, the notice of a detected change, and the notation text handed
  to \<open>os.WriteFile\<close>; the progress messages are left out.
\<close>

datatype event =
    ScanFailed string
  | GenerationFailed error
  | DiagramFailed error
  | ChangeDetected
  | PumlWritten string

text \<open>
  What one call of \<open>GenerateUMLDiagram\<close> meets: the orders of the renderer's two map
  loops, the error of \<open>os.MkdirAll\<close> and of \<open>os.WriteFile\<close> if any, whether
  \<open>plantuml.jar\<close> is reported missing, and the error and output of the \<open>java\<close>
  command if it fails.
\<close>

record DiagramEnv =
  structOrder :: "string list"
  interfaceOrder :: "string list"
  mkdirAll :: "string option"
  writeFile :: "string option"
  jarNotExist :: bool
  runPlantUML :: "(string \<times> string) option"

definition GenerateUMLDiagram :: "DiagramEnv \<Rightarrow> UMLGenerator \<Rightarrow> event list \<times> error option" where
  "GenerateUMLDiagram env g =
     (let plantUML = GeneratePlantUML (structOrder env) (interfaceOrder env) g
      in case mkdirAll env of
           Some err \<Rightarrow> ([], Some (MkdirFailure err))
         | None \<Rightarrow>
             (case writeFile env of
                Some err \<Rightarrow> ([], Some (WriteFailure err))
              | None \<Rightarrow>
                  if jarNotExist env then ([PumlWritten plantUML], None)
                  else (case runPlantUML env of
                          Some (err, output) \<Rightarrow>
                            ([PumlWritten plantUML], Some (PlantUMLFailure err output))
                        | None \<Rightarrow> ([PumlWritten plantUML], None))))"

text \<open>
  One observation of the directory by the watcher: the result of its own
  \<open>findGoFiles\<close>, the modification time \<open>os.Stat\<close> gives for a path (\<open>None\<close> when
  it fails), and what the regeneration pass and the diagram writer meet if they
  run.
\<close>

record Observation =
  scan :: "string + string list"
  stat :: "string \<Rightarrow> nat option"
  pass :: World
  diagram :: DiagramEnv

text \<open>
  \<open>lastModified\<close>, a \<open>map[string]time.Time\<close>, is a list of pairs of a path and its
  time with no path twice; what the watcher computes from it does not depend on
  the order of the pairs. Times are natural numbers.
\<close>

record FileWatcher =
  dirPath :: string
  lastModified :: "(string \<times> nat) list"
  outputDir :: string

definition NewFileWatcher :: "string \<Rightarrow> string \<Rightarrow> FileWatcher" where
  "NewFileWatcher d out = \<lparr>dirPath = d, lastModified = [], outputDir = out\<rparr>"

text \<open>The first loop of a tick (lines 582-593): new and newer files.\<close>

definition noteFile ::
  "(string \<Rightarrow> nat option) \<Rightarrow> (string \<times> nat) list \<times> bool \<Rightarrow> string \<Rightarrow>
   (string \<times> nat) list \<times> bool" where
  "noteFile st acc filePath =
     (case st filePath of
        None \<Rightarrow> acc
      | Some modTime \<Rightarrow>
          (case map_of (fst acc) filePath of
             None \<Rightarrow> (AList.update filePath modTime (fst acc), True)
           | Some lastMod \<Rightarrow>
               if modTime > lastMod then (AList.update filePath modTime (fst acc), True)
               else acc))"

text \<open>
  Both loops of a tick. The second (lines 596-609) ranges over \<open>lastModified\<close> and
  deletes every path that is not among the files found; its result does not
  depend on the order of the visit.
\<close>

definition scanChanges ::
  "(string \<Rightarrow> nat option) \<Rightarrow> (string \<times> nat) list \<Rightarrow> string list \<Rightarrow>
   (string \<times> nat) list \<times> bool" where
  "scanChanges st lm goFiles =
     (let seen = foldl (noteFile st) (lm, False) goFiles
      in (filter (\<lambda>entry. fst entry \<in> set goFiles) (fst seen),
          snd seen \<or> list_ex (\<lambda>entry. fst entry \<notin> set goFiles) (fst seen)))"

text \<open>The regeneration of lines 612-626, on a generator made by \<open>NewUMLGenerator\<close>.\<close>

definition regenerate :: "Observation \<Rightarrow> event list" where
  "regenerate ob =
     (case GenerateUMLFromDirectory (pass ob) NewUMLGenerator of
        (g, Some err) \<Rightarrow> [GenerationFailed err]
      | (g, None) \<Rightarrow>
          (case GenerateUMLDiagram (diagram ob) g of
             (evs, Some err) \<Rightarrow> evs @ [DiagramFailed err]
           | (evs, None) \<Rightarrow> evs))"

text \<open>One turn of the \<open>for\<close> loop of \<open>Watch\<close> (lines 570-627).\<close>

definition Watch_tick :: "FileWatcher \<Rightarrow> Observation \<Rightarrow> FileWatcher \<times> event list" where
  "Watch_tick fw ob =
     (case scan ob of
        Inl err \<Rightarrow> (fw, [ScanFailed err])
      | Inr goFiles \<Rightarrow>
          (let res = scanChanges (stat ob) (lastModified fw) goFiles;
               fw' = fw\<lparr>lastModified := fst res\<rparr>
           in if snd res then (fw', ChangeDetected # regenerate ob) else (fw', [])))"

text \<open>
  The loop never leaves by itself; the model runs it over the observations given,
  one per turn, and returns the watcher it has then and the events so far.
\<close>

fun Watch_loop :: "FileWatcher \<Rightarrow> Observation list \<Rightarrow> FileWatcher \<times> event list" where
  "Watch_loop fw [] = (fw, [])"
| "Watch_loop fw (ob # rest) =
     (let step = Watch_tick fw ob;
          later = Watch_loop (fst step) rest
      in (fst later, snd step @ snd later))"

text \<open>
  The part of \<open>Watch\<close> before the loop (lines 541-567). \<open>None\<close> for the watcher
  is a \<open>return\<close> from \<open>Watch\<close>, after which \<open>main\<close> ends.
\<close>

definition Watch_start :: "FileWatcher \<Rightarrow> Observation \<Rightarrow> FileWatcher option \<times> event list" where
  "Watch_start fw ob =
     (case scan ob of
        Inl err \<Rightarrow> (None, [ScanFailed err])
      | Inr goFiles \<Rightarrow>
          (let fw' = fw\<lparr>lastModified :=
                 foldl (\<lambda>lm filePath. case stat ob filePath of
                                         Some modTime \<Rightarrow> AList.update filePath modTime lm
                                       | None \<Rightarrow> lm)
                   (lastModified fw) goFiles\<rparr>
           in case GenerateUMLFromDirectory (pass ob) NewUMLGenerator of
                (g, Some err) \<Rightarrow> (None, [GenerationFailed err])
              | (g, None) \<Rightarrow>
                  (case GenerateUMLDiagram (diagram ob) g of
                     (evs, Some err) \<Rightarrow> (Some fw', evs @ [DiagramFailed err])
                   | (evs, None) \<Rightarrow> (Some fw', evs))))"

definition Watch ::
  "FileWatcher \<Rightarrow> Observation \<Rightarrow> Observation list \<Rightarrow> FileWatcher option \<times> event list" where
  "Watch fw first ticks =
     (case Watch_start fw first of
        (None, evs) \<Rightarrow> (None, evs)
      | (Some fw', evs) \<Rightarrow>
          (let run = Watch_loop fw' ticks in (Some (fst run), evs @ snd run)))"

section \<open>Vocabulary of the properties\<close>

text \<open>The names a declaration registers: those of its type specs that are structs
  or interfaces, in order.\<close>

definition declaredIn :: "Decl \<Rightarrow> string list" where
  "declaredIn decl =
     (case decl of
        GenDecl tok specs \<Rightarrow>
          if tok = T_TYPE
          then concat (map (\<lambda>spec. case spec of
                                      TypeSpec typeName typ \<Rightarrow>
                                        (case typ of StructType _ \<Rightarrow> [typeName]
                                         | InterfaceType _ \<Rightarrow> [typeName]
                                         | _ \<Rightarrow> [])
                                    | _ \<Rightarrow> []) specs)
          else []
      | _ \<Rightarrow> [])"

definition declaredTypes :: "Decl list \<Rightarrow> string list" where
  "declaredTypes decls = concat (map declaredIn decls)"

text \<open>
  The map loops of every \<open>identifyRelations\<close> call of a run over the files \<open>ps\<close>,
  started on \<open>g\<close>, visit the registry as it is at that call.
\<close>

fun ranges_ok :: "World \<Rightarrow> UMLGenerator \<Rightarrow> string list \<Rightarrow> bool" where
  "ranges_ok w g [] = True"
| "ranges_ok w g (filePath # rest) =
     (case ParseFile w filePath of
        Inl err \<Rightarrow> True
      | Inr decls \<Rightarrow>
          range_ok (foldl processDecl g decls) (rangeOrder w filePath) \<and>
          ranges_ok w (fst (ParseGoFile w g filePath)) rest)"

text \<open>
  \<open>keeps a g\<close>: every struct of \<open>a\<close> is a struct of \<open>g\<close> with the same fields and at
  least the same methods, and every interface of \<open>a\<close> is the same interface of
  \<open>g\<close>.
\<close>

definition keeps :: "UMLGenerator \<Rightarrow> UMLGenerator \<Rightarrow> bool" where
  "keeps a g =
     ((\<forall>n si. structs a n = Some si \<longrightarrow>
         (\<exists>si'. structs g n = Some si' \<and> Fields si' = Fields si \<and>
                set (Methods si) \<subseteq> set (Methods si'))) \<and>
      (\<forall>n ii. interfaces a n = Some ii \<longrightarrow> interfaces g n = Some ii))"

text \<open>
  What extraction can do to a generator: register a struct without methods or an
  interface under one of the names \<open>N\<close>, each under its own name, and append a
  method to a registered struct. \<open>evolves N g g'\<close>: \<open>g'\<close> comes from \<open>g\<close> by such
  steps.
\<close>

inductive evolves :: "string set \<Rightarrow> UMLGenerator \<Rightarrow> UMLGenerator \<Rightarrow> bool" for N g where
  same: "evolves N g g"
| addStruct:
    "evolves N g g' \<Longrightarrow> n \<in> N \<Longrightarrow> SName si = n \<Longrightarrow> Methods si = [] \<Longrightarrow>
       evolves N g (g'\<lparr>structs := (structs g')(n \<mapsto> si)\<rparr>)"
| addInterface:
    "evolves N g g' \<Longrightarrow> n \<in> N \<Longrightarrow> IName ii = n \<Longrightarrow>
       evolves N g (g'\<lparr>interfaces := (interfaces g')(n \<mapsto> ii)\<rparr>)"
| addMethod:
    "evolves N g g' \<Longrightarrow> structs g' n = Some si \<Longrightarrow>
       evolves N g (g'\<lparr>structs := (structs g')(n \<mapsto> si\<lparr>Methods := Methods si @ [m]\<rparr>)\<rparr>)"

text \<open>The endpoints of every relation are registered, the \<open>To\<close> endpoint up to
  one leading \<open>*\<close> of a struct name.\<close>

definition endpoints_ok :: "UMLGenerator \<Rightarrow> bool" where
  "endpoints_ok g =
     (\<forall>r\<in>set (relations g). From r \<in> dom (structs g) \<and>
        (To r \<in> dom (interfaces g) \<or> (\<exists>n\<in>dom (structs g). To r = TrimPrefix n ''*'')))"

text \<open>Some file among \<open>ps\<close> parses and declares the type name \<open>n\<close>.\<close>

definition declaredBy :: "World \<Rightarrow> string list \<Rightarrow> string \<Rightarrow> bool" where
  "declaredBy w ps n =
     (\<exists>p\<in>set ps. \<exists>decls. ParseFile w p = Inr decls \<and> n \<in> set (declaredTypes decls))"

section \<open>Example inputs\<close>

text \<open>A world with one file, \<open>main.go\<close>, that parses to \<open>decls\<close>; every map loop
  follows \<open>ord\<close>.\<close>

definition singleFile :: "Decl list \<Rightarrow> RangeOrder \<Rightarrow> World" where
  "singleFile decls ord =
     \<lparr>findGoFiles = Inr [''main.go''], ParseFile = (\<lambda>_. Inr decls), rangeOrder = (\<lambda>_. ord)\<rparr>"

text \<open>\<^verbatim>\<open>type Engine struct{}\<close> and \<^verbatim>\<open>type Car struct { Engine *Engine }\<close>.\<close>

definition carDecls :: "Decl list" where
  "carDecls =
     [GenDecl T_TYPE [TypeSpec ''Engine'' (StructType (Some []))],
      GenDecl T_TYPE [TypeSpec ''Car''
        (StructType (Some [Field [''Engine''] (StarExpr (Ident ''Engine''))]))]]"

text \<open>\<^verbatim>\<open>type Marker interface{}\<close> and \<^verbatim>\<open>type Holder struct { m Marker }\<close>.\<close>

definition markerDecls :: "Decl list" where
  "markerDecls =
     [GenDecl T_TYPE [TypeSpec ''Marker'' (InterfaceType (Some []))],
      GenDecl T_TYPE [TypeSpec ''Holder'' (StructType (Some [Field [''m''] (Ident ''Marker'')]))]]"

definition markerOrder :: RangeOrder where
  "markerOrder =
     \<lparr>memberStructs = [''Holder''], satisfactionStructs = [''Holder''],
      satisfactionInterfaces = (\<lambda>_. [''Marker''])\<rparr>"

definition markerGen :: UMLGenerator where
  "markerGen = fst (ParseGoFile (singleFile markerDecls markerOrder) NewUMLGenerator ''main.go'')"

text \<open>
  \<^verbatim>\<open>type Shape interface { Area() float64 }\<close>,
  \<^verbatim>\<open>type Circle struct { r float64 }\<close> with \<^verbatim>\<open>func (c Circle) Area() float64\<close>,
  \<^verbatim>\<open>type Square struct { side float64 }\<close> and
  \<^verbatim>\<open>type Canvas struct { shape Shape }\<close>.
\<close>

definition shapeDecls :: "Decl list" where
  "shapeDecls =
     [GenDecl T_TYPE [TypeSpec ''Shape''
        (InterfaceType (Some [Field [''Area'']
           (FuncType (Some []) (Some [Field [] (Ident ''float64'')]))]))],
      GenDecl T_TYPE [TypeSpec ''Circle'' (StructType (Some [Field [''r''] (Ident ''float64'')]))],
      FuncDecl (Some [Field [''c''] (Ident ''Circle'')]) ''Area'' (Some [])
        (Some [Field [] (Ident ''float64'')]),
      GenDecl T_TYPE [TypeSpec ''Square''
        (StructType (Some [Field [''side''] (Ident ''float64'')]))],
      GenDecl T_TYPE [TypeSpec ''Canvas'' (StructType (Some [Field [''shape''] (Ident ''Shape'')]))]]"

definition shapeOrder :: RangeOrder where
  "shapeOrder =
     \<lparr>memberStructs = [''Circle'', ''Square'', ''Canvas''],
      satisfactionStructs = [''Circle'', ''Square'', ''Canvas''],
      satisfactionInterfaces = (\<lambda>_. [''Shape''])\<rparr>"

definition shapeGen :: UMLGenerator where
  "shapeGen = fst (ParseGoFile (singleFile shapeDecls shapeOrder) NewUMLGenerator ''main.go'')"

text \<open>\<^verbatim>\<open>type Engine struct{}\<close> and \<^verbatim>\<open>type Car struct { Engine }\<close>.\<close>

definition embedDecls :: "Decl list" where
  "embedDecls =
     [GenDecl T_TYPE [TypeSpec ''Engine'' (StructType (Some []))],
      GenDecl T_TYPE [TypeSpec ''Car'' (StructType (Some [Field [] (Ident ''Engine'')]))]]"

definition embedOrder :: RangeOrder where
  "embedOrder =
     \<lparr>memberStructs = [''Engine'', ''Car''], satisfactionStructs = [''Engine'', ''Car''],
      satisfactionInterfaces = (\<lambda>_. [])\<rparr>"

definition embedGen :: UMLGenerator where
  "embedGen = fst (ParseGoFile (singleFile embedDecls embedOrder) NewUMLGenerator ''main.go'')"

definition embedGen_v2 :: UMLGenerator where
  "embedGen_v2 =
     fst (ParseGoFile_v2 (singleFile embedDecls embedOrder) NewUMLGenerator ''main.go'')"

text \<open>\<^verbatim>\<open>type Wheel struct{}\<close> and
  \<^verbatim>\<open>type Cart struct { wheels []Wheel; spare [2]Wheel }\<close>.\<close>

definition wheelDecls :: "Decl list" where
  "wheelDecls =
     [GenDecl T_TYPE [TypeSpec ''Wheel'' (StructType (Some []))],
      GenDecl T_TYPE [TypeSpec ''Cart''
        (StructType (Some [Field [''wheels''] (ArrayType None (Ident ''Wheel'')),
                           Field [''spare''] (ArrayType (Some OtherExpr) (Ident ''Wheel''))]))]]"

definition wheelOrder :: RangeOrder where
  "wheelOrder =
     \<lparr>memberStructs = [''Wheel'', ''Cart''], satisfactionStructs = [''Wheel'', ''Cart''],
      satisfactionInterfaces = (\<lambda>_. [])\<rparr>"

definition wheelGen_v2 :: UMLGenerator where
  "wheelGen_v2 =
     fst (ParseGoFile_v2 (singleFile wheelDecls wheelOrder) NewUMLGenerator ''main.go'')"

definition carGen :: UMLGenerator where
  "carGen =
     fst (ParseGoFile (singleFile carDecls embedOrder) NewUMLGenerator ''main.go'')"

text \<open>Two files in two packages: \<^verbatim>\<open>type X struct{}\<close> in \<open>a/x.go\<close> and
  \<^verbatim>\<open>type X interface{}\<close> in \<open>b/x.go\<close>.\<close>

definition clashWorld :: World where
  "clashWorld =
     \<lparr>findGoFiles = Inr [''a/x.go'', ''b/x.go''],
      ParseFile = (\<lambda>p. if p = ''a/x.go''
                        then Inr [GenDecl T_TYPE [TypeSpec ''X'' (StructType (Some []))]]
                        else Inr [GenDecl T_TYPE [TypeSpec ''X'' (InterfaceType (Some []))]]),
      rangeOrder = (\<lambda>p. \<lparr>memberStructs = [''X''], satisfactionStructs = [''X''],
                          satisfactionInterfaces =
                            (\<lambda>_. if p = ''a/x.go'' then [] else [''X''])\<rparr>)\<rparr>"

text \<open>Two files: \<^verbatim>\<open>type A struct{}\<close> and \<^verbatim>\<open>type B struct { a A }\<close> in
  \<open>a/b.go\<close>, and \<^verbatim>\<open>type B struct{}\<close> in \<open>c/b.go\<close>.\<close>

definition redeclWorld :: World where
  "redeclWorld =
     \<lparr>findGoFiles = Inr [''a/b.go'', ''c/b.go''],
      ParseFile = (\<lambda>p. if p = ''a/b.go''
                        then Inr [GenDecl T_TYPE [TypeSpec ''A'' (StructType (Some []))],
                                  GenDecl T_TYPE [TypeSpec ''B''
                                    (StructType (Some [Field [''a''] (Ident ''A'')]))]]
                        else Inr [GenDecl T_TYPE [TypeSpec ''B'' (StructType (Some []))]]),
      rangeOrder = (\<lambda>_. \<lparr>memberStructs = [''A'', ''B''], satisfactionStructs = [''A'', ''B''],
                          satisfactionInterfaces = (\<lambda>_. [])\<rparr>)\<rparr>"

text \<open>Two files: \<open>a.go\<close> with \<open>Engine\<close> and \<open>Car\<close> embedding it, \<open>b.go\<close> with
  \<open>Marker\<close> and \<open>Holder\<close>.\<close>

definition twoFileOrder :: RangeOrder where
  "twoFileOrder =
     \<lparr>memberStructs = [''Engine'', ''Car'', ''Holder''],
      satisfactionStructs = [''Engine'', ''Car'', ''Holder''],
      satisfactionInterfaces = (\<lambda>_. [''Marker''])\<rparr>"

definition twoFileWorld :: World where
  "twoFileWorld =
     \<lparr>findGoFiles = Inr [''a.go'', ''b.go''],
      ParseFile = (\<lambda>p. if p = ''a.go'' then Inr embedDecls else Inr markerDecls),
      rangeOrder = (\<lambda>p. if p = ''a.go'' then embedOrder else twoFileOrder)\<rparr>"

text \<open>The same two files, met by map loops that visit the structs the other way round
  after \<open>b.go\<close>.\<close>

definition reversedOrder :: RangeOrder where
  "reversedOrder =
     \<lparr>memberStructs = [''Holder'', ''Car'', ''Engine''],
      satisfactionStructs = [''Holder'', ''Car'', ''Engine''],
      satisfactionInterfaces = (\<lambda>_. [''Marker''])\<rparr>"

definition twoFileWorld_rev :: World where
  "twoFileWorld_rev =
     \<lparr>findGoFiles = Inr [''a.go'', ''b.go''],
      ParseFile = (\<lambda>p. if p = ''a.go'' then Inr embedDecls else Inr markerDecls),
      rangeOrder = (\<lambda>p. if p = ''a.go'' then embedOrder else reversedOrder)\<rparr>"

text \<open>A directory with \<open>a.go\<close>, which declares \<open>Engine\<close> and \<open>Car\<close>, and \<open>bad.go\<close>,
  which does not parse; and what the diagram writer meets when all goes well and
  there is no \<open>plantuml.jar\<close>.\<close>

definition badWorld :: World where
  "badWorld =
     \<lparr>findGoFiles = Inr [''a.go'', ''bad.go''],
      ParseFile = (\<lambda>p. if p = ''a.go'' then Inr embedDecls else Inl ''expected declaration''),
      rangeOrder = (\<lambda>_. embedOrder)\<rparr>"

definition plainDiagram :: DiagramEnv where
  "plainDiagram =
     \<lparr>structOrder = [''Engine'', ''Car''], interfaceOrder = [], mkdirAll = None,
      writeFile = None, jarNotExist = True, runPlantUML = None\<rparr>"

definition badObservation :: Observation where
  "badObservation =
     \<lparr>scan = Inr [''a.go'', ''bad.go''], stat = (\<lambda>_. Some 1), pass = badWorld,
      diagram = plainDiagram\<rparr>"

definition goodObservation :: Observation where
  "goodObservation =
     \<lparr>scan = Inr [''main.go''], stat = (\<lambda>_. Some 2), pass = singleFile embedDecls embedOrder,
      diagram = plainDiagram\<rparr>"

text \<open>A watcher that knows \<open>main.go\<close> and a file \<open>old.go\<close>, which
  \<open>goodObservation\<close> no longer finds.\<close>

definition staleWatcher :: FileWatcher where
  "staleWatcher =
     \<lparr>dirPath = ''src'', lastModified = [(''main.go'', 2), (''old.go'', 1)], outputDir = ''out''\<rparr>"



definition twoFileGen :: UMLGenerator where
  "twoFileGen = fst (GenerateUMLFromDirectory twoFileWorld NewUMLGenerator)"

definition clashGen :: UMLGenerator where
  "clashGen = fst (GenerateUMLFromDirectory clashWorld NewUMLGenerator)"

definition redeclGen :: UMLGenerator where
  "redeclGen = fst (GenerateUMLFromDirectory redeclWorld NewUMLGenerator)"

section \<open>Ranging: basic facts\<close>

lemma concat_rangeOver_Nil:
  "(\<And>k v. m k = Some v \<Longrightarrow> body k v = []) \<Longrightarrow> concat (rangeOver m ks body) = []"
  by (induction ks) (auto simp: rangeOver_def split: option.splits)

lemma in_concat_rangeOver:
  "x \<in> set (concat (rangeOver m ks body)) \<longleftrightarrow>
     (\<exists>k v. k \<in> set ks \<and> m k = Some v \<and> x \<in> set (body k v))"
  unfolding rangeOver_def by (force split: option.splits)




section \<open>The two stages of the inference\<close>

lemma implementsInterface_iff:
  "implementsInterface si ii \<longleftrightarrow>
     (\<forall>im\<in>set (IMethods ii). \<exists>sm\<in>set (Methods si). MName sm = MName im)"
  by (simp add: implementsInterface_def hasMethod_def list_all_iff list_ex_iff)

lemma in_memberRelations:
  "r \<in> set (memberRelations g ks) \<longleftrightarrow>
     (\<exists>S si f. S \<in> set ks \<and> structs g S = Some si \<and> f \<in> set (Fields si) \<and>
        r \<in> set (fieldRelations g S f))"
  unfolding memberRelations_def in_concat_rangeOver by auto

lemma in_memberRelations_v2:
  "r \<in> set (memberRelations_v2 g ks) \<longleftrightarrow>
     (\<exists>S si f. S \<in> set ks \<and> structs g S = Some si \<and> f \<in> set (Fields si) \<and>
        r \<in> set (fieldRelations_v2 g S f))"
  unfolding memberRelations_v2_def in_concat_rangeOver by auto

lemma in_satisfactionRelations:
  "r \<in> set (satisfactionRelations g ks iks) \<longleftrightarrow>
     (\<exists>S si I ii. S \<in> set ks \<and> structs g S = Some si \<and> I \<in> set (iks S) \<and>
        interfaces g I = Some ii \<and> implementsInterface si ii \<and> IMethods ii \<noteq> [] \<and>
        r = \<lparr>From = S, To = I, RType = ''implements'', Cardinality = ''''\<rparr>)"
  unfolding satisfactionRelations_def in_concat_rangeOver by auto

lemma in_fieldRelations:
  "r \<in> set (fieldRelations g S f) \<longleftrightarrow>
     (structs g (FType f) \<noteq> None \<and>
      r = \<lparr>From = S, To = TrimPrefix (FType f) ''*'',
           RType = (if FName f = FType f then ''extends''
                    else if HasPrefix (FType f) ''*'' then ''composition'' else ''aggregation''),
           Cardinality = ''1''\<rparr>) \<or>
     (interfaces g (FType f) \<noteq> None \<and>
      r = \<lparr>From = S, To = FType f, RType = ''implements'', Cardinality = ''''\<rparr>)"
  by (auto simp: fieldRelations_def)

lemma fieldRelations_implements:
  "r \<in> set (fieldRelations g S f) \<Longrightarrow> RType r = ''implements'' \<Longrightarrow>
     interfaces g (FType f) \<noteq> None \<and>
     r = \<lparr>From = S, To = FType f, RType = ''implements'', Cardinality = ''''\<rparr>"
  by (auto simp: in_fieldRelations split: if_splits)

lemma fieldRelations_v2_not_implements:
  "r \<in> set (fieldRelations_v2 g S f) \<Longrightarrow> RType r \<noteq> ''implements''"
  by (auto simp: fieldRelations_v2_def Let_def split: if_splits)

lemma range_ok_member: "range_ok g ord \<Longrightarrow> structs g S = Some si \<Longrightarrow> S \<in> set (memberStructs ord)"
  by (auto simp: range_ok_def is_range_def)

lemma range_ok_satisfaction:
  "range_ok g ord \<Longrightarrow> structs g S = Some si \<Longrightarrow> S \<in> set (satisfactionStructs ord)"
  by (auto simp: range_ok_def is_range_def)

lemma range_ok_interfaces:
  "range_ok g ord \<Longrightarrow> structs g S = Some si \<Longrightarrow> interfaces g I = Some ii \<Longrightarrow>
     I \<in> set (satisfactionInterfaces ord S)"
proof -
  assume a: "range_ok g ord" "structs g S = Some si" "interfaces g I = Some ii"
  from a(1,2) have "S \<in> set (satisfactionStructs ord)" by (rule range_ok_satisfaction)
  with a(1) have "set (satisfactionInterfaces ord S) = dom (interfaces g)"
    by (simp add: range_ok_def is_range_def list_all_iff)
  with a(3) show ?thesis by auto
qed



lemma TrimPrefix_id: "\<not> HasPrefix s p \<Longrightarrow> TrimPrefix s p = s"
  by (simp add: TrimPrefix_def)



lemma fieldRelations_From: "r \<in> set (fieldRelations g S z) \<Longrightarrow> From r = S"
  by (auto simp: fieldRelations_def split: if_splits)

section \<open>A pointer field to a registered struct\<close>

lemma car_extracted:
  "foldl processDecl NewUMLGenerator carDecls =
     \<lparr>structs = [''Engine'' \<mapsto> \<lparr>SName = ''Engine'', Fields = [], Methods = []\<rparr>,
                 ''Car'' \<mapsto> \<lparr>SName = ''Car'',
                             Fields = [\<lparr>FName = ''Engine'', FType = ''*Engine''\<rparr>],
                             Methods = []\<rparr>],
      interfaces = Map.empty, relations = []\<rparr>"
  by (simp add: carDecls_def NewUMLGenerator_def processDecl_def processDecl_with_def
      processSpec_with_def processTypeSpec_with_def structFields_def)

lemma car_extracted_v2:
  "foldl processDecl_v2 NewUMLGenerator carDecls =
     \<lparr>structs = [''Engine'' \<mapsto> \<lparr>SName = ''Engine'', Fields = [], Methods = []\<rparr>,
                 ''Car'' \<mapsto> \<lparr>SName = ''Car'',
                             Fields = [\<lparr>FName = ''Engine'', FType = ''*Engine''\<rparr>],
                             Methods = []\<rparr>],
      interfaces = Map.empty, relations = []\<rparr>"
  by (simp add: carDecls_def NewUMLGenerator_def processDecl_v2_def processDecl_with_def
      processSpec_with_def processTypeSpec_with_def structFields_def)

lemma car_inferred: "inferred ord (foldl processDecl NewUMLGenerator carDecls) = []"
proof -
  have "memberRelations (foldl processDecl NewUMLGenerator carDecls) ks = []" for ks
    unfolding car_extracted memberRelations_def
    by (rule concat_rangeOver_Nil) (auto simp: fieldRelations_def split: if_splits)
  moreover have "satisfactionRelations (foldl processDecl NewUMLGenerator carDecls) ks iks = []"
    for ks iks
    unfolding car_extracted satisfactionRelations_def
    by (rule concat_rangeOver_Nil, rule concat_rangeOver_Nil) simp
  ultimately show ?thesis by (simp add: inferred_def)
qed

lemma car_inferred_v2: "inferred_v2 ord (foldl processDecl_v2 NewUMLGenerator carDecls) = []"
proof -
  have "memberRelations_v2 (foldl processDecl_v2 NewUMLGenerator carDecls) ks = []" for ks
    unfolding car_extracted_v2 memberRelations_v2_def
    by (rule concat_rangeOver_Nil) (auto simp: fieldRelations_v2_def HasPrefix_def split: if_splits)
  moreover have "satisfactionRelations (foldl processDecl_v2 NewUMLGenerator carDecls) ks iks = []"
    for ks iks
    unfolding car_extracted_v2 satisfactionRelations_def
    by (rule concat_rangeOver_Nil, rule concat_rangeOver_Nil) simp
  ultimately show ?thesis by (simp add: inferred_v2_def)
qed

text \<open>
  C1. The claim has the member stage look the field's type up after stripping one
  leading \<open>*\<close>, and so render \<open>Car *-- Engine\<close> for the two records above. Both
  variants look the raw reference \<open>*Engine\<close> up: whatever the order of the map
  loops, parsing the file leaves the relation list empty, and the rendered text
  has the two class blocks and no relation line.
\<close>

theorem C1_pointer_field_yields_no_relation:
  "relations (fst (ParseGoFile (singleFile carDecls ord) NewUMLGenerator ''main.go'')) = [] \<and>
   GeneratePlantUML [''Engine'', ''Car''] []
       (fst (ParseGoFile (singleFile carDecls ord) NewUMLGenerator ''main.go'')) =
     ''@startuml\<newline>\<newline>class Engine {\<newline>}\<newline>\<newline>class Car {\<newline>    +Engine: *Engine\<newline>}\<newline>\<newline>\<newline>@enduml'' \<and>
   relations (fst (ParseGoFile_v2 (singleFile carDecls ord) NewUMLGenerator ''main.go'')) = [] \<and>
   GeneratePlantUML_v2 [''Engine'', ''Car''] []
       (fst (ParseGoFile_v2 (singleFile carDecls ord) NewUMLGenerator ''main.go'')) =
     ''@startuml\<newline>\<newline>class Engine {\<newline>}\<newline>\<newline>class Car {\<newline>  +Engine: *Engine\<newline>}\<newline>\<newline>\<newline>@enduml''"
proof -
  have a: "fst (ParseGoFile (singleFile carDecls ord) NewUMLGenerator ''main.go'') =
      foldl processDecl NewUMLGenerator carDecls"
    by (simp add: ParseGoFile_def singleFile_def identifyRelations_def car_inferred)
  have b: "fst (ParseGoFile_v2 (singleFile carDecls ord) NewUMLGenerator ''main.go'') =
      foldl processDecl_v2 NewUMLGenerator carDecls"
    by (simp add: ParseGoFile_v2_def singleFile_def identifyRelations_v2_def car_inferred_v2)
  show ?thesis
    unfolding a b car_extracted car_extracted_v2
    by (simp add: GeneratePlantUML_def GeneratePlantUML_v2_def classBlocks_def interfaceBlocks_def
        rangeOver_def classBlock_def classBlock_v2_def fieldLines_def fieldLines_v2_def nl_def)
qed

section \<open>The example inputs, extracted\<close>

lemmas eval_defs =
  ParseGoFile_def ParseGoFile_v2_def singleFile_def NewUMLGenerator_def processDecl_def
  processDecl_v2_def processDecl_with_def processSpec_with_def processTypeSpec_with_def
  processMethod_with_def receiverTypeName_def structFields_def interfaceMethods_def
  makeMethod_def paramInfos_def identifyRelations_def identifyRelations_v2_def inferred_def
  inferred_v2_def memberRelations_def memberRelations_v2_def satisfactionRelations_def
  rangeOver_def fieldRelations_def fieldRelations_v2_def implementsInterface_def hasMethod_def
  HasPrefix_def TrimPrefix_def Let_def

lemma markerGen_eq:
  "markerGen =
     \<lparr>structs = [''Holder'' \<mapsto> \<lparr>SName = ''Holder'',
                                Fields = [\<lparr>FName = ''m'', FType = ''Marker''\<rparr>], Methods = []\<rparr>],
      interfaces = [''Marker'' \<mapsto> \<lparr>IName = ''Marker'', IMethods = []\<rparr>],
      relations = [\<lparr>From = ''Holder'', To = ''Marker'', RType = ''implements'',
                     Cardinality = ''''\<rparr>]\<rparr>"
  by (simp add: markerGen_def markerDecls_def markerOrder_def eval_defs)

lemma shapeGen_eq:
  "shapeGen =
     \<lparr>structs =
        [''Circle'' \<mapsto> \<lparr>SName = ''Circle'', Fields = [\<lparr>FName = ''r'', FType = ''float64''\<rparr>],
                         Methods = [\<lparr>MName = ''Area'', Parameters = [],
                                     ReturnType = ''float64''\<rparr>]\<rparr>,
         ''Square'' \<mapsto> \<lparr>SName = ''Square'',
                         Fields = [\<lparr>FName = ''side'', FType = ''float64''\<rparr>], Methods = []\<rparr>,
         ''Canvas'' \<mapsto> \<lparr>SName = ''Canvas'',
                         Fields = [\<lparr>FName = ''shape'', FType = ''Shape''\<rparr>], Methods = []\<rparr>],
      interfaces =
        [''Shape'' \<mapsto> \<lparr>IName = ''Shape'',
                        IMethods = [\<lparr>MName = ''Area'', Parameters = [],
                                     ReturnType = ''float64''\<rparr>]\<rparr>],
      relations =
        [\<lparr>From = ''Canvas'', To = ''Shape'', RType = ''implements'', Cardinality = ''''\<rparr>,
         \<lparr>From = ''Circle'', To = ''Shape'', RType = ''implements'', Cardinality = ''''\<rparr>]\<rparr>"
  by (simp add: shapeGen_def shapeDecls_def shapeOrder_def eval_defs)

lemma embedGen_eq:
  "embedGen =
     \<lparr>structs = [''Engine'' \<mapsto> \<lparr>SName = ''Engine'', Fields = [], Methods = []\<rparr>,
                 ''Car'' \<mapsto> \<lparr>SName = ''Car'',
                             Fields = [\<lparr>FName = ''Engine'', FType = ''Engine''\<rparr>],
                             Methods = []\<rparr>],
      interfaces = Map.empty,
      relations = [\<lparr>From = ''Car'', To = ''Engine'', RType = ''extends'',
                     Cardinality = ''1''\<rparr>]\<rparr>"
  by (simp add: embedGen_def embedDecls_def embedOrder_def eval_defs)

lemma embedGen_v2_eq:
  "embedGen_v2 =
     \<lparr>structs = [''Engine'' \<mapsto> \<lparr>SName = ''Engine'', Fields = [], Methods = []\<rparr>,
                 ''Car'' \<mapsto> \<lparr>SName = ''Car'',
                             Fields = [\<lparr>FName = ''Engine'', FType = ''Engine''\<rparr>],
                             Methods = []\<rparr>],
      interfaces = Map.empty,
      relations = [\<lparr>From = ''Car'', To = ''Engine'', RType = ''composition'',
                     Cardinality = ''1''\<rparr>]\<rparr>"
  by (simp add: embedGen_v2_def embedDecls_def embedOrder_def eval_defs)

lemma wheelGen_v2_eq:
  "wheelGen_v2 =
     \<lparr>structs = [''Wheel'' \<mapsto> \<lparr>SName = ''Wheel'', Fields = [], Methods = []\<rparr>,
                 ''Cart'' \<mapsto> \<lparr>SName = ''Cart'',
                             Fields = [\<lparr>FName = ''wheels'', FType = ''[]Wheel''\<rparr>,
                                       \<lparr>FName = ''spare'', FType = ''[]Wheel''\<rparr>],
                             Methods = []\<rparr>],
      interfaces = Map.empty,
      relations = [\<lparr>From = ''Cart'', To = ''Wheel'', RType = ''aggregation'',
                     Cardinality = ''*''\<rparr>,
                   \<lparr>From = ''Cart'', To = ''Wheel'', RType = ''aggregation'',
                     Cardinality = ''*''\<rparr>]\<rparr>"
  by (simp add: wheelGen_v2_def wheelDecls_def wheelOrder_def eval_defs)

lemma carGen_eq:
  "carGen =
     \<lparr>structs = [''Engine'' \<mapsto> \<lparr>SName = ''Engine'', Fields = [], Methods = []\<rparr>,
                 ''Car'' \<mapsto> \<lparr>SName = ''Car'',
                             Fields = [\<lparr>FName = ''Engine'', FType = ''*Engine''\<rparr>],
                             Methods = []\<rparr>],
      interfaces = Map.empty, relations = []\<rparr>"
  by (simp add: carGen_def carDecls_def embedOrder_def eval_defs)

section \<open>Interfaces without methods\<close>

text \<open>
  C3 (as amended). An interface with no method is never the \<open>To\<close> endpoint of an
  \<open>implements\<close> relation of the satisfaction stage. The member stage of the first
  variant has no such guard: when the inferencer's output holds an \<open>implements\<close>
  relation to a registered interface with no method, the relation is not one of
  the satisfaction stage, and its \<open>From\<close> struct has a field whose type reference
  is the interface's name.
\<close>

theorem C3_empty_interface_only_by_member:
  assumes "r \<in> set (inferred ord g)" and "RType r = ''implements''"
    and "interfaces g (To r) = Some ii" and "IMethods ii = []"
  shows "r \<notin> set (satisfactionRelations g (satisfactionStructs ord) (satisfactionInterfaces ord)) \<and>
         (\<exists>si f. structs g (From r) = Some si \<and> f \<in> set (Fields si) \<and> FType f = To r)"
proof -
  have no: "r \<notin> set (satisfactionRelations g ks iks)" for ks iks
    using assms(3,4) by (auto simp: in_satisfactionRelations)
  with assms(1) have "r \<in> set (memberRelations g (memberStructs ord))"
    by (simp add: inferred_def)
  then obtain S si f where sf: "structs g S = Some si" "f \<in> set (Fields si)"
      "r \<in> set (fieldRelations g S f)"
    by (auto simp: in_memberRelations)
  from fieldRelations_implements[OF sf(3) assms(2)] have "From r = S" "To r = FType f" by auto
  with sf no show ?thesis by auto
qed

text \<open>C3 as stated fails on \<open>Marker\<close> and \<open>Holder\<close>: the member stage emits
  \<open>Holder implements Marker\<close>, and \<open>Marker\<close> has no method.\<close>

theorem C3_counterexample:
  "\<lparr>From = ''Holder'', To = ''Marker'', RType = ''implements'', Cardinality = ''''\<rparr>
     \<in> set (relations markerGen) \<and>
   map_option IMethods (interfaces markerGen ''Marker'') = Some []"
  by (simp add: markerGen_eq)

text \<open>The hypotheses of C3 hold of that relation.\<close>

theorem C3_witness:
  "\<lparr>From = ''Holder'', To = ''Marker'', RType = ''implements'', Cardinality = ''''\<rparr>
     \<in> set (inferred markerOrder markerGen) \<and>
   \<lparr>From = ''Holder'', To = ''Marker'', RType = ''implements'', Cardinality = ''''\<rparr>
     \<notin> set (satisfactionRelations markerGen (satisfactionStructs markerOrder)
              (satisfactionInterfaces markerOrder)) \<and>
   (\<exists>si f. structs markerGen ''Holder'' = Some si \<and> f \<in> set (Fields si) \<and> FType f = ''Marker'')"
proof -
  let ?r = "\<lparr>From = ''Holder'', To = ''Marker'', RType = ''implements'', Cardinality = ''''\<rparr>"
  have h1: "?r \<in> set (inferred markerOrder markerGen)"
    by (simp add: markerGen_eq markerOrder_def inferred_def memberRelations_def
        satisfactionRelations_def rangeOver_def fieldRelations_def implementsInterface_def)
  have h2: "RType ?r = ''implements''" by simp
  have h3: "interfaces markerGen (To ?r) = Some \<lparr>IName = ''Marker'', IMethods = []\<rparr>"
    by (simp add: markerGen_eq)
  have h4: "IMethods \<lparr>IName = ''Marker'', IMethods = []\<rparr> = []" by simp
  from C3_empty_interface_only_by_member[OF h1 h2 h3 h4] h1 show ?thesis by simp
qed

section \<open>Structural satisfaction\<close>

lemma shape_range_ok: "range_ok shapeGen shapeOrder"
  by (auto simp: range_ok_def is_range_def shapeGen_eq shapeOrder_def)

text \<open>
  C5 (as amended). For a registered struct \<open>S\<close> and a registered interface \<open>I\<close> with
  at least one method, and map loops that visit the registry: the first variant
  emits an \<open>implements\<close> relation from \<open>S\<close> to \<open>I\<close> if and only if every method
  name of \<open>I\<close> is the name of a method of \<open>S\<close>, or \<open>S\<close> has a field whose type
  reference is \<open>I\<close>; the second variant emits one if and only if every method
  name of \<open>I\<close> is the name of a method of \<open>S\<close>. Only names are compared.
\<close>

theorem C5_implements_iff:
  assumes "range_ok g ord" and "structs g S = Some si" and "interfaces g I = Some ii"
    and "IMethods ii \<noteq> []"
  shows "((\<exists>r\<in>set (inferred ord g). From r = S \<and> To r = I \<and> RType r = ''implements'') \<longleftrightarrow>
            (\<forall>im\<in>set (IMethods ii). \<exists>sm\<in>set (Methods si). MName sm = MName im) \<or>
            (\<exists>f\<in>set (Fields si). FType f = I)) \<and>
         ((\<exists>r\<in>set (inferred_v2 ord g). From r = S \<and> To r = I \<and> RType r = ''implements'') \<longleftrightarrow>
            (\<forall>im\<in>set (IMethods ii). \<exists>sm\<in>set (Methods si). MName sm = MName im))"
proof -
  let ?sat = "satisfactionRelations g (satisfactionStructs ord) (satisfactionInterfaces ord)"
  let ?all = "\<forall>im\<in>set (IMethods ii). \<exists>sm\<in>set (Methods si). MName sm = MName im"
  have sat: "(\<exists>r\<in>set ?sat. From r = S \<and> To r = I \<and> RType r = ''implements'') \<longleftrightarrow> ?all"
  proof
    assume "\<exists>r\<in>set ?sat. From r = S \<and> To r = I \<and> RType r = ''implements''"
    then show ?all
      using assms(2,3) by (auto simp: in_satisfactionRelations implementsInterface_iff)
  next
    assume ?all
    then have "\<lparr>From = S, To = I, RType = ''implements'', Cardinality = ''''\<rparr> \<in> set ?sat"
      using assms range_ok_satisfaction[OF assms(1,2)] range_ok_interfaces[OF assms(1,2,3)]
      by (auto simp: in_satisfactionRelations implementsInterface_iff)
    then show "\<exists>r\<in>set ?sat. From r = S \<and> To r = I \<and> RType r = ''implements''"
      by force
  qed
  have mem: "(\<exists>r\<in>set (memberRelations g (memberStructs ord)).
                From r = S \<and> To r = I \<and> RType r = ''implements'') \<longleftrightarrow>
             (\<exists>f\<in>set (Fields si). FType f = I)"
  proof
    assume "\<exists>r\<in>set (memberRelations g (memberStructs ord)).
                From r = S \<and> To r = I \<and> RType r = ''implements''"
    then obtain r S' si' f where r: "From r = S" "To r = I" "RType r = ''implements''"
        "structs g S' = Some si'" "f \<in> set (Fields si')" "r \<in> set (fieldRelations g S' f)"
      by (auto simp: in_memberRelations)
    from fieldRelations_implements[OF r(6) r(3)] r(1,2) have "S' = S" "FType f = I" by auto
    with r(4,5) assms(2) show "\<exists>f\<in>set (Fields si). FType f = I" by auto
  next
    assume "\<exists>f\<in>set (Fields si). FType f = I"
    then obtain f where f: "f \<in> set (Fields si)" "FType f = I" by auto
    have "\<lparr>From = S, To = I, RType = ''implements'', Cardinality = ''''\<rparr>
            \<in> set (fieldRelations g S f)"
      using f(2) assms(3) by (simp add: in_fieldRelations)
    then have "\<lparr>From = S, To = I, RType = ''implements'', Cardinality = ''''\<rparr>
            \<in> set (memberRelations g (memberStructs ord))"
      using f(1) assms(2) range_ok_member[OF assms(1,2)] by (auto simp: in_memberRelations)
    then show "\<exists>r\<in>set (memberRelations g (memberStructs ord)).
                From r = S \<and> To r = I \<and> RType r = ''implements''"
      by force
  qed
  have mem2: "\<not> (\<exists>r\<in>set (memberRelations_v2 g (memberStructs ord)).
                From r = S \<and> To r = I \<and> RType r = ''implements'')"
    by (auto simp: in_memberRelations_v2 dest: fieldRelations_v2_not_implements)
  have a: "(\<exists>r\<in>set (inferred ord g). From r = S \<and> To r = I \<and> RType r = ''implements'') \<longleftrightarrow>
        (\<exists>r\<in>set (memberRelations g (memberStructs ord)).
                From r = S \<and> To r = I \<and> RType r = ''implements'') \<or>
        (\<exists>r\<in>set ?sat. From r = S \<and> To r = I \<and> RType r = ''implements'')"
    unfolding inferred_def by auto
  have b: "(\<exists>r\<in>set (inferred_v2 ord g). From r = S \<and> To r = I \<and> RType r = ''implements'') \<longleftrightarrow>
        (\<exists>r\<in>set (memberRelations_v2 g (memberStructs ord)).
                From r = S \<and> To r = I \<and> RType r = ''implements'') \<or>
        (\<exists>r\<in>set ?sat. From r = S \<and> To r = I \<and> RType r = ''implements'')"
    unfolding inferred_v2_def by auto
  show ?thesis
    unfolding a b using sat mem mem2 by blast
qed

text \<open>C5 as stated fails in the first variant on \<open>Canvas\<close>, which has no method
  and a field of type \<open>Shape\<close>: the relation is emitted.\<close>

theorem C5_counterexample:
  "interfaces shapeGen ''Shape'' =
     Some \<lparr>IName = ''Shape'',
           IMethods = [\<lparr>MName = ''Area'', Parameters = [], ReturnType = ''float64''\<rparr>]\<rparr> \<and>
   structs shapeGen ''Canvas'' =
     Some \<lparr>SName = ''Canvas'', Fields = [\<lparr>FName = ''shape'', FType = ''Shape''\<rparr>],
           Methods = []\<rparr> \<and>
   \<lparr>From = ''Canvas'', To = ''Shape'', RType = ''implements'', Cardinality = ''''\<rparr>
     \<in> set (inferred shapeOrder shapeGen) \<and>
   \<not> ((\<exists>r\<in>set (inferred shapeOrder shapeGen).
          From r = ''Canvas'' \<and> To r = ''Shape'' \<and> RType r = ''implements'') \<longleftrightarrow>
       (\<forall>im\<in>set [\<lparr>MName = ''Area'', Parameters = [], ReturnType = ''float64''\<rparr>].
          \<exists>sm\<in>set ([] :: MethodInfo list). MName sm = MName im))"
proof -
  have "\<lparr>From = ''Canvas'', To = ''Shape'', RType = ''implements'', Cardinality = ''''\<rparr>
     \<in> set (inferred shapeOrder shapeGen)"
    by (simp add: shapeGen_eq shapeOrder_def inferred_def memberRelations_def
        satisfactionRelations_def rangeOver_def fieldRelations_def implementsInterface_def
        hasMethod_def)
  moreover from this have "\<exists>r\<in>set (inferred shapeOrder shapeGen).
          From r = ''Canvas'' \<and> To r = ''Shape'' \<and> RType r = ''implements''"
    by force
  ultimately show ?thesis by (simp add: shapeGen_eq)
qed

text \<open>\<open>Circle\<close> has a method \<open>Area\<close> and gets the relation, \<open>Square\<close> has none and
  gets no relation, in both variants.\<close>

theorem C5_witness:
  "(\<exists>r\<in>set (inferred shapeOrder shapeGen).
      From r = ''Circle'' \<and> To r = ''Shape'' \<and> RType r = ''implements'') \<and>
   \<not> (\<exists>r\<in>set (inferred shapeOrder shapeGen).
      From r = ''Square'' \<and> To r = ''Shape'' \<and> RType r = ''implements'') \<and>
   (\<exists>r\<in>set (inferred_v2 shapeOrder shapeGen).
      From r = ''Circle'' \<and> To r = ''Shape'' \<and> RType r = ''implements'') \<and>
   \<not> (\<exists>r\<in>set (inferred_v2 shapeOrder shapeGen).
      From r = ''Square'' \<and> To r = ''Shape'' \<and> RType r = ''implements'')"
proof -
  let ?shape = "\<lparr>IName = ''Shape'',
           IMethods = [\<lparr>MName = ''Area'', Parameters = [], ReturnType = ''float64''\<rparr>]\<rparr>"
  let ?circle = "\<lparr>SName = ''Circle'', Fields = [\<lparr>FName = ''r'', FType = ''float64''\<rparr>],
       Methods = [\<lparr>MName = ''Area'', Parameters = [], ReturnType = ''float64''\<rparr>]\<rparr>"
  let ?square = "\<lparr>SName = ''Square'', Fields = [\<lparr>FName = ''side'', FType = ''float64''\<rparr>],
       Methods = []\<rparr>"
  have i: "interfaces shapeGen ''Shape'' = Some ?shape" by (simp add: shapeGen_eq)
  have c: "structs shapeGen ''Circle'' = Some ?circle" by (simp add: shapeGen_eq)
  have s: "structs shapeGen ''Square'' = Some ?square" by (simp add: shapeGen_eq)
  have n: "IMethods ?shape \<noteq> []" by simp
  from C5_implements_iff[OF shape_range_ok c i n] C5_implements_iff[OF shape_range_ok s i n]
  show ?thesis by simp
qed

section \<open>Embedded fields\<close>














section \<open>Slice fields, second variant\<close>

lemma in_fieldRelations_v2_slice:
  "FType f = ''[]'' @ T \<Longrightarrow> structs g T = Some t \<Longrightarrow>
     \<lparr>From = S, To = T, RType = ''aggregation'', Cardinality = ''*''\<rparr>
       \<in> set (fieldRelations_v2 g S f)"
  by (simp add: fieldRelations_v2_def HasPrefix_def TrimPrefix_def)

lemma relation_line_in_text_v2:
  assumes "r \<in> set (relations g)"
  shows "\<exists>pre post. GeneratePlantUML_v2 ks iks g = pre @ relationLine_v2 r @ post"
proof -
  from assms obtain xs ys where "relations g = xs @ r # ys" by (auto dest: split_list)
  then have "GeneratePlantUML_v2 ks iks g =
      (''@startuml'' @ nl @ nl @
       concat (rangeOver (structs g) ks (\<lambda>_ structInfo. classBlock_v2 structInfo)) @
       concat (rangeOver (interfaces g) iks (\<lambda>_ interfaceInfo. interfaceBlock_v2 interfaceInfo)) @
       concat (map relationLine_v2 xs)) @
      relationLine_v2 r @ (concat (map relationLine_v2 ys) @ nl @ ''@enduml'')"
    by (simp add: GeneratePlantUML_v2_def)
  then show ?thesis by blast
qed

text \<open>
  C6, on the second variant, which it cites. Let \<open>f\<close> be a field of the registered
  struct \<open>S\<close> whose type reference is \<open>[]\<close> followed by the name \<open>T\<close> of a
  registered struct, and let the member loop visit the registry. The inferencer
  emits \<open>S -> T\<close> of kind \<open>aggregation\<close> with cardinality \<open>*\<close>, the renderer's
  line for it carries the quoted cardinality label, and that line stands in the
  rendered text. Slices and arrays alike have the reference \<open>[]\<close> followed by
  the reference of their element type.
\<close>

theorem C6_slice_aggregation:
  assumes ok: "range_ok g ord" and S: "structs g S = Some si" and f: "f \<in> set (Fields si)"
    and ty: "FType f = ''[]'' @ T" and T: "structs g T = Some t"
  shows "\<lparr>From = S, To = T, RType = ''aggregation'', Cardinality = ''*''\<rparr>
           \<in> set (inferred_v2 ord g) \<and>
         \<lparr>From = S, To = T, RType = ''aggregation'', Cardinality = ''*''\<rparr>
           \<in> set (relations (identifyRelations_v2 ord g)) \<and>
         relationLine_v2 \<lparr>From = S, To = T, RType = ''aggregation'', Cardinality = ''*''\<rparr> =
           S @ '' o-- '' @ dquote @ ''*'' @ dquote @ '' '' @ T @ nl \<and>
         (\<exists>pre post. GeneratePlantUML_v2 ks iks (identifyRelations_v2 ord g) =
            pre @ (S @ '' o-- '' @ dquote @ ''*'' @ dquote @ '' '' @ T @ nl) @ post) \<and>
         getTypeString_v2 (ArrayType len elt) = ''[]'' @ getTypeString_v2 elt"
proof -
  let ?r = "\<lparr>From = S, To = T, RType = ''aggregation'', Cardinality = ''*''\<rparr>"
  have "?r \<in> set (memberRelations_v2 g (memberStructs ord))"
    using in_fieldRelations_v2_slice[OF ty T] S f range_ok_member[OF ok S]
    by (auto simp: in_memberRelations_v2)
  then have a: "?r \<in> set (inferred_v2 ord g)" by (simp add: inferred_v2_def)
  then have b: "?r \<in> set (relations (identifyRelations_v2 ord g))"
    by (simp add: identifyRelations_v2_def)
  have c: "relationLine_v2 ?r = S @ '' o-- '' @ dquote @ ''*'' @ dquote @ '' '' @ T @ nl"
    by (simp add: relationLine_v2_def)
  from relation_line_in_text_v2[OF b] c
  have d: "\<exists>pre post. GeneratePlantUML_v2 ks iks (identifyRelations_v2 ord g) =
            pre @ (S @ '' o-- '' @ dquote @ ''*'' @ dquote @ '' '' @ T @ nl) @ post"
    by simp
  from a b c d show ?thesis by simp
qed

lemma wheel_registry:
  "foldl processDecl_v2 NewUMLGenerator wheelDecls =
     \<lparr>structs = [''Wheel'' \<mapsto> \<lparr>SName = ''Wheel'', Fields = [], Methods = []\<rparr>,
                 ''Cart'' \<mapsto> \<lparr>SName = ''Cart'',
                             Fields = [\<lparr>FName = ''wheels'', FType = ''[]Wheel''\<rparr>,
                                       \<lparr>FName = ''spare'', FType = ''[]Wheel''\<rparr>],
                             Methods = []\<rparr>],
      interfaces = Map.empty, relations = []\<rparr>"
  by (simp add: wheelDecls_def eval_defs)

lemma wheelGen_v2_identify:
  "wheelGen_v2 = identifyRelations_v2 wheelOrder (foldl processDecl_v2 NewUMLGenerator wheelDecls)"
  by (simp add: wheelGen_v2_def ParseGoFile_v2_def singleFile_def)

text \<open>The hypotheses of C6 hold of the array field \<open>spare\<close> of \<open>Cart\<close>.\<close>

theorem C6_witness:
  "\<lparr>From = ''Cart'', To = ''Wheel'', RType = ''aggregation'', Cardinality = ''*''\<rparr>
     \<in> set (relations wheelGen_v2) \<and>
   (\<exists>pre post. GeneratePlantUML_v2 [''Wheel'', ''Cart''] [] wheelGen_v2 =
      pre @ (''Cart o-- '' @ dquote @ ''*'' @ dquote @ '' Wheel'' @ nl) @ post)"
proof -
  let ?g = "foldl processDecl_v2 NewUMLGenerator wheelDecls"
  let ?f = "\<lparr>FName = ''spare'', FType = ''[]Wheel''\<rparr>"
  let ?cart = "\<lparr>SName = ''Cart'', Fields = [\<lparr>FName = ''wheels'', FType = ''[]Wheel''\<rparr>, ?f],
                Methods = []\<rparr>"
  have ok: "range_ok ?g wheelOrder"
    by (auto simp: wheel_registry range_ok_def is_range_def wheelOrder_def)
  have S: "structs ?g ''Cart'' = Some ?cart" by (simp add: wheel_registry)
  have f: "?f \<in> set (Fields ?cart)" by simp
  have ty: "FType ?f = ''[]'' @ ''Wheel''" by simp
  have T: "structs ?g ''Wheel'' = Some \<lparr>SName = ''Wheel'', Fields = [], Methods = []\<rparr>"
    by (simp add: wheel_registry)
  from C6_slice_aggregation[OF ok S f ty T, of "[''Wheel'', ''Cart'']" "[]"]
  show ?thesis unfolding wheelGen_v2_identify by simp
qed

section \<open>The registry under extraction\<close>

lemma evolves_trans: "evolves N b c \<Longrightarrow> evolves N a b \<Longrightarrow> evolves N a c"
  by (induction rule: evolves.induct) (auto intro: evolves.intros)

lemma evolves_mono: "evolves N a b \<Longrightarrow> N \<subseteq> M \<Longrightarrow> evolves M a b"
  by (induction rule: evolves.induct) (auto intro: evolves.intros)

lemma evolves_relations: "evolves N g g' \<Longrightarrow> relations g' = relations g"
  by (induction rule: evolves.induct) auto

lemma evolves_dom:
  "evolves N g g' \<Longrightarrow>
     dom (structs g) \<subseteq> dom (structs g') \<and> dom (interfaces g) \<subseteq> dom (interfaces g')"
  by (induction rule: evolves.induct) auto

lemma evolves_declared_struct:
  "evolves N g g' \<Longrightarrow> structs g' k = Some si \<Longrightarrow> k \<in> N \<or> structs g k \<noteq> None"
  by (induction arbitrary: si rule: evolves.induct) (auto split: if_splits)

lemma evolves_declared_interface:
  "evolves N g g' \<Longrightarrow> interfaces g' k = Some ii \<Longrightarrow> k \<in> N \<or> interfaces g k \<noteq> None"
  by (induction arbitrary: ii rule: evolves.induct) (auto split: if_splits)

lemma evolves_SName:
  assumes "evolves N g g'" and "\<forall>n si. structs g n = Some si \<longrightarrow> SName si = n"
  shows "structs g' k = Some si \<Longrightarrow> SName si = k"
  using assms(1)
proof (induction arbitrary: si rule: evolves.induct)
  case same
  with assms(2) show ?case by blast
next
  case (addStruct g' n si0)
  then show ?case by (cases "k = n") simp_all
next
  case (addInterface g' n ii)
  then show ?case by simp
next
  case (addMethod g' n si0 m)
  show ?case
  proof (cases "k = n")
    case True
    with addMethod.prems have "si = si0\<lparr>Methods := Methods si0 @ [m]\<rparr>" by simp
    moreover from addMethod.IH[of si0] addMethod.hyps(2) True have "SName si0 = k" by simp
    ultimately show ?thesis by simp
  next
    case False
    with addMethod.prems addMethod.IH[of si] show ?thesis by simp
  qed
qed

lemma evolves_IName:
  assumes "evolves N g g'" and "\<forall>n ii. interfaces g n = Some ii \<longrightarrow> IName ii = n"
  shows "interfaces g' k = Some ii \<Longrightarrow> IName ii = k"
  using assms(1)
proof (induction arbitrary: ii rule: evolves.induct)
  case same
  with assms(2) show ?case by blast
next
  case (addStruct g' n si0)
  then show ?case by simp
next
  case (addInterface g' n ii0)
  then show ?case by (cases "k = n") simp_all
next
  case (addMethod g' n si0 m)
  then show ?case by simp
qed

lemma evolves_keeps:
  "evolves N g g' \<Longrightarrow> keeps a g \<Longrightarrow> N \<inter> (dom (structs a) \<union> dom (interfaces a)) = {} \<Longrightarrow>
     keeps a g'"
proof (induction rule: evolves.induct)
  case same
  then show ?case by simp
next
  case (addStruct g' n si)
  then have k: "keeps a g'" and n: "structs a n = None" by auto
  show ?case unfolding keeps_def
  proof (intro conjI allI impI)
    fix k si0 assume "structs a k = Some si0"
    with n have "k \<noteq> n" by auto
    with k \<open>structs a k = Some si0\<close>
    show "\<exists>si'. structs (g'\<lparr>structs := (structs g')(n \<mapsto> si)\<rparr>) k = Some si' \<and>
            Fields si' = Fields si0 \<and> set (Methods si0) \<subseteq> set (Methods si')"
      by (auto simp: keeps_def)
  next
    fix k ii assume "interfaces a k = Some ii"
    with k show "interfaces (g'\<lparr>structs := (structs g')(n \<mapsto> si)\<rparr>) k = Some ii"
      by (auto simp: keeps_def)
  qed
next
  case (addInterface g' n ii)
  then have k: "keeps a g'" and n: "interfaces a n = None" by auto
  show ?case unfolding keeps_def
  proof (intro conjI allI impI)
    fix k si0 assume "structs a k = Some si0"
    with k show "\<exists>si'. structs (g'\<lparr>interfaces := (interfaces g')(n \<mapsto> ii)\<rparr>) k = Some si' \<and>
            Fields si' = Fields si0 \<and> set (Methods si0) \<subseteq> set (Methods si')"
      by (auto simp: keeps_def)
  next
    fix k ii0 assume "interfaces a k = Some ii0"
    with n have "k \<noteq> n" by auto
    with k \<open>interfaces a k = Some ii0\<close>
    show "interfaces (g'\<lparr>interfaces := (interfaces g')(n \<mapsto> ii)\<rparr>) k = Some ii0"
      by (auto simp: keeps_def)
  qed
next
  case (addMethod g' n si m)
  then have k: "keeps a g'" by auto
  show ?case unfolding keeps_def
  proof (intro conjI allI impI)
    fix k si0 assume a: "structs a k = Some si0"
    with k have "\<exists>si'. structs g' k = Some si' \<and> Fields si' = Fields si0 \<and>
        set (Methods si0) \<subseteq> set (Methods si')"
      unfolding keeps_def by blast
    then obtain si' where s: "structs g' k = Some si'" "Fields si' = Fields si0"
        "set (Methods si0) \<subseteq> set (Methods si')"
      by blast
    show "\<exists>si'. structs (g'\<lparr>structs := (structs g')(n \<mapsto> si\<lparr>Methods := Methods si @ [m]\<rparr>)\<rparr>) k =
            Some si' \<and> Fields si' = Fields si0 \<and> set (Methods si0) \<subseteq> set (Methods si')"
    proof (cases "k = n")
      case True
      with s addMethod.hyps(2) have "si' = si" by simp
      with True s show ?thesis by auto
    next
      case False
      with s show ?thesis by auto
    qed
  next
    fix k ii0 assume "interfaces a k = Some ii0"
    with k
    show "interfaces (g'\<lparr>structs := (structs g')(n \<mapsto> si\<lparr>Methods := Methods si @ [m]\<rparr>)\<rparr>) k =
            Some ii0"
      by (auto simp: keeps_def)
  qed
qed

text \<open>Extraction evolves the registry.\<close>

lemma processTypeSpec_evolves:
  assumes "evolves N g0 g"
    and "case ty of StructType _ \<Rightarrow> typeName \<in> N | InterfaceType _ \<Rightarrow> typeName \<in> N | _ \<Rightarrow> True"
  shows "evolves N g0 (processTypeSpec_with gts g typeName ty)"
proof (cases ty)
  case (StructType fl)
  with assms(2) have n: "typeName \<in> N" by simp
  let ?si = "\<lparr>SName = typeName,
              Fields = (case fl of None \<Rightarrow> [] | Some fl \<Rightarrow> concat (map (structFields gts) fl)),
              Methods = []\<rparr>"
  have "evolves N g0 (g\<lparr>structs := (structs g)(typeName \<mapsto> ?si)\<rparr>)"
    by (rule evolves.addStruct[OF assms(1) n]) simp_all
  then show ?thesis by (simp add: StructType processTypeSpec_with_def)
next
  case (InterfaceType ml)
  with assms(2) have n: "typeName \<in> N" by simp
  let ?ii = "\<lparr>IName = typeName,
              IMethods = (case ml of None \<Rightarrow> []
                          | Some ml \<Rightarrow> concat (map (interfaceMethods gts) ml))\<rparr>"
  have "evolves N g0 (g\<lparr>interfaces := (interfaces g)(typeName \<mapsto> ?ii)\<rparr>)"
    by (rule evolves.addInterface[OF assms(1) n]) simp
  then show ?thesis by (simp add: InterfaceType processTypeSpec_with_def)
qed (simp_all add: processTypeSpec_with_def assms(1))

lemma processMethod_evolves:
  assumes "evolves N g0 g"
  shows "evolves N g0 (processMethod_with gts g recv methodName params results)"
proof -
  have step: "evolves N g0 (case structs g typeName of
                 Some structInfo \<Rightarrow>
                   g\<lparr>structs := (structs g)(typeName \<mapsto>
                        structInfo\<lparr>Methods := Methods structInfo @ [m]\<rparr>)\<rparr>
               | None \<Rightarrow> g)" for typeName m
  proof (cases "structs g typeName")
    case None
    with assms show ?thesis by simp
  next
    case (Some si)
    from evolves.addMethod[OF assms Some] show ?thesis by (simp add: Some)
  qed
  show ?thesis
  proof (cases recv)
    case None
    with assms show ?thesis by (simp add: processMethod_with_def)
  next
    case (Some rl)
    show ?thesis
    proof (cases rl)
      case Nil
      with Some assms show ?thesis by (simp add: processMethod_with_def)
    next
      case (Cons receiver rest)
      show ?thesis
      proof (cases "receiverTypeName (Type receiver)")
        case None
        with Some Cons assms show ?thesis by (simp add: processMethod_with_def)
      next
        case (Some typeName)
        with \<open>recv = Some rl\<close> Cons step[of typeName] show ?thesis
          by (simp add: processMethod_with_def Let_def)
      qed
    qed
  qed
qed

lemma processSpecs_evolves:
  "evolves N g0 g \<Longrightarrow> set (declaredIn (GenDecl T_TYPE specs)) \<subseteq> N \<Longrightarrow>
     evolves N g0 (foldl (processSpec_with gts) g specs)"
proof (induction specs arbitrary: g)
  case Nil
  then show ?case by simp
next
  case (Cons spec specs)
  have "evolves N g0 (processSpec_with gts g spec)"
  proof (cases spec)
    case (TypeSpec typeName ty)
    have "case ty of StructType _ \<Rightarrow> typeName \<in> N | InterfaceType _ \<Rightarrow> typeName \<in> N | _ \<Rightarrow> True"
      using Cons.prems(2) TypeSpec by (cases ty) (simp_all add: declaredIn_def)
    from processTypeSpec_evolves[OF Cons.prems(1) this] TypeSpec show ?thesis
      by (simp add: processSpec_with_def)
  next
    case ImportSpec
    with Cons.prems(1) show ?thesis by (simp add: processSpec_with_def)
  next
    case ValueSpec
    with Cons.prems(1) show ?thesis by (simp add: processSpec_with_def)
  qed
  moreover from Cons.prems(2) have "set (declaredIn (GenDecl T_TYPE specs)) \<subseteq> N"
    by (simp add: declaredIn_def)
  ultimately show ?case using Cons.IH by simp
qed

lemma processDecl_evolves:
  assumes "evolves N g0 g" and "set (declaredIn decl) \<subseteq> N"
  shows "evolves N g0 (processDecl_with gts g decl)"
proof (cases decl)
  case (GenDecl tok specs)
  show ?thesis
  proof (cases "tok = T_TYPE")
    case True
    with assms GenDecl processSpecs_evolves[of N g0 g specs gts] show ?thesis
      by (simp add: processDecl_with_def)
  next
    case False
    with assms GenDecl show ?thesis by (simp add: processDecl_with_def)
  qed
next
  case (FuncDecl recv methodName params results)
  with assms(1) processMethod_evolves[OF assms(1), of gts recv methodName params results]
  show ?thesis by (simp add: processDecl_with_def)
next
  case BadDecl
  with assms(1) show ?thesis by (simp add: processDecl_with_def)
qed

lemma processDecls_evolves:
  "evolves N g0 g \<Longrightarrow> set (declaredTypes decls) \<subseteq> N \<Longrightarrow>
     evolves N g0 (foldl (processDecl_with gts) g decls)"
proof (induction decls arbitrary: g)
  case Nil
  then show ?case by simp
next
  case (Cons decl decls)
  from Cons.prems(2) have d: "set (declaredIn decl) \<subseteq> N" "set (declaredTypes decls) \<subseteq> N"
    by (simp_all add: declaredTypes_def)
  from Cons.IH[OF processDecl_evolves[OF Cons.prems(1) d(1)] d(2)] show ?case by simp
qed

lemma extraction_evolves:
  "evolves (set (declaredTypes decls)) g (foldl processDecl g decls)"
  unfolding processDecl_def by (rule processDecls_evolves[OF evolves.same]) simp

section \<open>Runs over the files of a directory\<close>

lemma ParseGoFile_Inr:
  "ParseFile w p = Inr decls \<Longrightarrow>
     ParseGoFile w g p = (identifyRelations (rangeOrder w p) (foldl processDecl g decls), None)"
  by (simp add: ParseGoFile_def)

lemma ParseGoFile_Inl:
  "ParseFile w p = Inl e \<Longrightarrow> ParseGoFile w g p = (g, Some (ParseFailure p e))"
  by (simp add: ParseGoFile_def)

lemma parseFiles_Cons_Inr:
  "ParseFile w p = Inr decls \<Longrightarrow>
     parseFiles w g (p # rest) =
       parseFiles w (identifyRelations (rangeOrder w p) (foldl processDecl g decls)) rest"
  by (simp add: ParseGoFile_Inr)

lemma parseFiles_Cons_Inl:
  "ParseFile w p = Inl e \<Longrightarrow> parseFiles w g (p # rest) = (g, Some (ParseFailure p e))"
  by (simp add: ParseGoFile_Inl)

lemma identifyRelations_simps [simp]:
  "structs (identifyRelations ord g) = structs g"
  "interfaces (identifyRelations ord g) = interfaces g"
  "relations (identifyRelations ord g) = relations g @ inferred ord g"
  by (simp_all add: identifyRelations_def)

lemma inferred_cong:
  assumes "structs g = structs g'" and "interfaces g = interfaces g'"
  shows "inferred ord g = inferred ord g'"
proof -
  have "fieldRelations g = fieldRelations g'"
    by (intro ext) (simp add: fieldRelations_def assms)
  then show ?thesis
    by (simp add: inferred_def memberRelations_def satisfactionRelations_def assms)
qed

lemma range_ok_cong:
  "structs g = structs g' \<Longrightarrow> interfaces g = interfaces g' \<Longrightarrow> range_ok g ord = range_ok g' ord"
  by (simp add: range_ok_def)

text \<open>An invariant of the generator that every parsed file keeps holds after the run.\<close>

lemma parseFiles_invariant:
  assumes "P g"
    and "\<And>g p decls. P g \<Longrightarrow> p \<in> set ps \<Longrightarrow> ParseFile w p = Inr decls \<Longrightarrow>
           P (identifyRelations (rangeOrder w p) (foldl processDecl g decls))"
  shows "P (fst (parseFiles w g ps))"
  using assms
proof (induction ps arbitrary: g)
  case Nil
  then show ?case by simp
next
  case (Cons p ps)
  show ?case
  proof (cases "ParseFile w p")
    case (Inl e)
    with Cons.prems(1) show ?thesis unfolding parseFiles_Cons_Inl[OF Inl] by simp
  next
    case (Inr decls)
    have "P (identifyRelations (rangeOrder w p) (foldl processDecl g decls))"
      using Cons.prems(1) Inr by (intro Cons.prems(2)) simp_all
    then have "P (fst (parseFiles w (identifyRelations (rangeOrder w p)
                 (foldl processDecl g decls)) ps))"
      by (rule Cons.IH) (simp_all add: Cons.prems(2))
    then show ?thesis unfolding parseFiles_Cons_Inr[OF Inr] .
  qed
qed

lemma inferred_endpoints:
  assumes "r \<in> set (inferred ord g)"
  shows "From r \<in> dom (structs g) \<and>
         (To r \<in> dom (interfaces g) \<or> (\<exists>n\<in>dom (structs g). To r = TrimPrefix n ''*''))"
proof (cases "r \<in> set (memberRelations g (memberStructs ord))")
  case True
  then obtain S si f where sf: "structs g S = Some si" "r \<in> set (fieldRelations g S f)"
    by (auto simp: in_memberRelations)
  from sf(2) have "From r = S" by (rule fieldRelations_From)
  moreover from sf(2) have "To r \<in> dom (interfaces g) \<or>
      (\<exists>n\<in>dom (structs g). To r = TrimPrefix n ''*'')"
    by (auto simp: in_fieldRelations)
  ultimately show ?thesis using sf(1) by auto
next
  case False
  with assms have "r \<in> set (satisfactionRelations g (satisfactionStructs ord)
      (satisfactionInterfaces ord))"
    by (simp add: inferred_def)
  then show ?thesis by (auto simp: in_satisfactionRelations)
qed

lemma endpoints_step:
  assumes "endpoints_ok g"
  shows "endpoints_ok (identifyRelations ord (foldl processDecl g decls))"
proof -
  let ?g = "foldl processDecl g decls"
  have ev: "evolves (set (declaredTypes decls)) g ?g" by (rule extraction_evolves)
  from evolves_dom[OF ev] have d: "dom (structs g) \<subseteq> dom (structs ?g)"
      "dom (interfaces g) \<subseteq> dom (interfaces ?g)" by auto
  have rel: "relations ?g = relations g" using ev by (rule evolves_relations)
  show ?thesis unfolding endpoints_ok_def
  proof
    fix r assume "r \<in> set (relations (identifyRelations ord ?g))"
    then consider "r \<in> set (relations g)" | "r \<in> set (inferred ord ?g)"
      by (auto simp: rel)
    then show "From r \<in> dom (structs (identifyRelations ord ?g)) \<and>
        (To r \<in> dom (interfaces (identifyRelations ord ?g)) \<or>
         (\<exists>n\<in>dom (structs (identifyRelations ord ?g)). To r = TrimPrefix n ''*''))"
    proof cases
      case 1
      with assms have "From r \<in> dom (structs g)"
        "To r \<in> dom (interfaces g) \<or> (\<exists>n\<in>dom (structs g). To r = TrimPrefix n ''*'')"
        by (auto simp: endpoints_ok_def)
      with d show ?thesis by (simp add: subset_iff) blast
    next
      case 2
      from inferred_endpoints[OF this] show ?thesis by simp
    qed
  qed
qed

lemma parseFiles_endpoints: "endpoints_ok g \<Longrightarrow> endpoints_ok (fst (parseFiles w g ps))"
  by (rule parseFiles_invariant) (auto intro: endpoints_step)

lemma parseFiles_SName:
  assumes "\<forall>n si. structs g n = Some si \<longrightarrow> SName si = n"
  shows "\<forall>n si. structs (fst (parseFiles w g ps)) n = Some si \<longrightarrow> SName si = n"
proof (rule parseFiles_invariant[where P = "\<lambda>g. \<forall>n si. structs g n = Some si \<longrightarrow> SName si = n"])
  show "\<forall>n si. structs g n = Some si \<longrightarrow> SName si = n" by (rule assms)
next
  fix g :: UMLGenerator and p decls
  assume a: "\<forall>n si. structs g n = Some si \<longrightarrow> SName si = n"
  from evolves_SName[OF extraction_evolves a]
  show "\<forall>n si. structs (identifyRelations (rangeOrder w p) (foldl processDecl g decls)) n = Some si
          \<longrightarrow> SName si = n"
    by simp
qed

lemma parseFiles_IName:
  assumes "\<forall>n ii. interfaces g n = Some ii \<longrightarrow> IName ii = n"
  shows "\<forall>n ii. interfaces (fst (parseFiles w g ps)) n = Some ii \<longrightarrow> IName ii = n"
proof (rule parseFiles_invariant[where P = "\<lambda>g. \<forall>n ii. interfaces g n = Some ii \<longrightarrow> IName ii = n"])
  show "\<forall>n ii. interfaces g n = Some ii \<longrightarrow> IName ii = n" by (rule assms)
next
  fix g :: UMLGenerator and p decls
  assume a: "\<forall>n ii. interfaces g n = Some ii \<longrightarrow> IName ii = n"
  from evolves_IName[OF extraction_evolves a]
  show "\<forall>n ii. interfaces (identifyRelations (rangeOrder w p) (foldl processDecl g decls)) n = Some ii
          \<longrightarrow> IName ii = n"
    by simp
qed

text \<open>Every registered name is declared in a file of the run that parses.\<close>

lemma parseFiles_declared:
  assumes "\<forall>n. n \<in> dom (structs g) \<union> dom (interfaces g) \<longrightarrow> declaredBy w ps n"
  shows "\<forall>n. n \<in> dom (structs (fst (parseFiles w g ps))) \<union>
               dom (interfaces (fst (parseFiles w g ps))) \<longrightarrow> declaredBy w ps n"
proof (rule parseFiles_invariant[where
      P = "\<lambda>g. \<forall>n. n \<in> dom (structs g) \<union> dom (interfaces g) \<longrightarrow> declaredBy w ps n"])
  show "\<forall>n. n \<in> dom (structs g) \<union> dom (interfaces g) \<longrightarrow> declaredBy w ps n" by (rule assms)
next
  fix g :: UMLGenerator and p decls
  assume a: "\<forall>n. n \<in> dom (structs g) \<union> dom (interfaces g) \<longrightarrow> declaredBy w ps n"
    and p: "p \<in> set ps" "ParseFile w p = Inr decls"
  let ?g = "foldl processDecl g decls"
  have ev: "evolves (set (declaredTypes decls)) g ?g" by (rule extraction_evolves)
  have new: "declaredBy w ps n" if "n \<in> set (declaredTypes decls)" for n
    using that p unfolding declaredBy_def by blast
  show "\<forall>n. n \<in> dom (structs (identifyRelations (rangeOrder w p) ?g)) \<union>
             dom (interfaces (identifyRelations (rangeOrder w p) ?g)) \<longrightarrow> declaredBy w ps n"
  proof (intro allI impI)
    fix n assume "n \<in> dom (structs (identifyRelations (rangeOrder w p) ?g)) \<union>
             dom (interfaces (identifyRelations (rangeOrder w p) ?g))"
    then consider si where "structs ?g n = Some si" | ii where "interfaces ?g n = Some ii"
      by auto
    then show "declaredBy w ps n"
    proof cases
      case 1
      from evolves_declared_struct[OF ev 1] a new show ?thesis by auto
    next
      case 2
      from evolves_declared_interface[OF ev 2] a new show ?thesis by auto
    qed
  qed
qed

lemma Reset_eq: "Reset g = NewUMLGenerator"
  by (cases g) (simp add: Reset_def NewUMLGenerator_def)

lemma GenerateUMLFromDirectory_Inr:
  "findGoFiles w = Inr ps \<Longrightarrow> GenerateUMLFromDirectory w g = parseFiles w NewUMLGenerator ps"
  by (simp add: GenerateUMLFromDirectory_def Reset_eq)

lemma GenerateUMLFromDirectory_Inl:
  "findGoFiles w = Inl e \<Longrightarrow>
     GenerateUMLFromDirectory w g = (NewUMLGenerator, Some (WalkFailure e))"
  by (simp add: GenerateUMLFromDirectory_def Reset_eq)

lemmas world_defs = twoFileWorld_def clashWorld_def redeclWorld_def badWorld_def
  embedDecls_def markerDecls_def embedOrder_def markerOrder_def twoFileOrder_def

lemma twoFileGen_eq:
  "twoFileGen =
     \<lparr>structs = [''Engine'' \<mapsto> \<lparr>SName = ''Engine'', Fields = [], Methods = []\<rparr>,
                 ''Car'' \<mapsto> \<lparr>SName = ''Car'',
                             Fields = [\<lparr>FName = ''Engine'', FType = ''Engine''\<rparr>],
                             Methods = []\<rparr>,
                 ''Holder'' \<mapsto> \<lparr>SName = ''Holder'',
                                Fields = [\<lparr>FName = ''m'', FType = ''Marker''\<rparr>], Methods = []\<rparr>],
      interfaces = [''Marker'' \<mapsto> \<lparr>IName = ''Marker'', IMethods = []\<rparr>],
      relations =
        [\<lparr>From = ''Car'', To = ''Engine'', RType = ''extends'', Cardinality = ''1''\<rparr>,
         \<lparr>From = ''Car'', To = ''Engine'', RType = ''extends'', Cardinality = ''1''\<rparr>,
         \<lparr>From = ''Holder'', To = ''Marker'', RType = ''implements'', Cardinality = ''''\<rparr>]\<rparr>"
  by (simp add: twoFileGen_def GenerateUMLFromDirectory_def Reset_def world_defs eval_defs)

lemma twoFile_err: "snd (GenerateUMLFromDirectory twoFileWorld NewUMLGenerator) = None"
  by (simp add: GenerateUMLFromDirectory_def Reset_def world_defs eval_defs)

lemma clashGen_eq:
  "clashGen =
     \<lparr>structs = [''X'' \<mapsto> \<lparr>SName = ''X'', Fields = [], Methods = []\<rparr>],
      interfaces = [''X'' \<mapsto> \<lparr>IName = ''X'', IMethods = []\<rparr>],
      relations = []\<rparr>"
  by (simp add: clashGen_def GenerateUMLFromDirectory_def Reset_def world_defs eval_defs)

lemma redeclGen_eq:
  "redeclGen =
     \<lparr>structs = [''A'' \<mapsto> \<lparr>SName = ''A'', Fields = [], Methods = []\<rparr>,
                 ''B'' \<mapsto> \<lparr>SName = ''B'', Fields = [], Methods = []\<rparr>],
      interfaces = Map.empty,
      relations = [\<lparr>From = ''B'', To = ''A'', RType = ''aggregation'', Cardinality = ''1''\<rparr>]\<rparr>"
  by (simp add: redeclGen_def GenerateUMLFromDirectory_def Reset_def world_defs eval_defs)

lemma fst_GenerateUMLFromDirectory:
  "fst (GenerateUMLFromDirectory w g0) =
     (case findGoFiles w of Inl e \<Rightarrow> NewUMLGenerator
      | Inr ps \<Rightarrow> fst (parseFiles w NewUMLGenerator ps))"
  by (cases "findGoFiles w")
     (simp_all add: GenerateUMLFromDirectory_Inl GenerateUMLFromDirectory_Inr)

lemma endpoints_ok_New: "endpoints_ok NewUMLGenerator"
  by (simp add: endpoints_ok_def NewUMLGenerator_def)

lemma GenerateUMLFromDirectory_endpoints: "endpoints_ok (fst (GenerateUMLFromDirectory w g0))"
proof (cases "findGoFiles w")
  case (Inl e)
  then show ?thesis by (simp add: fst_GenerateUMLFromDirectory endpoints_ok_New)
next
  case (Inr ps)
  from parseFiles_endpoints[OF endpoints_ok_New, of w ps] Inr show ?thesis
    by (simp only: fst_GenerateUMLFromDirectory sum.case)
qed

lemma GenerateUMLFromDirectory_SName:
  "\<forall>n si. structs (fst (GenerateUMLFromDirectory w g0)) n = Some si \<longrightarrow> SName si = n"
proof (cases "findGoFiles w")
  case (Inl e)
  then show ?thesis by (simp add: fst_GenerateUMLFromDirectory NewUMLGenerator_def)
next
  case (Inr ps)
  have "\<forall>n si. structs NewUMLGenerator n = Some si \<longrightarrow> SName si = n"
    by (simp add: NewUMLGenerator_def)
  from parseFiles_SName[OF this, of w ps] Inr show ?thesis
    by (simp only: fst_GenerateUMLFromDirectory sum.case)
qed

lemma GenerateUMLFromDirectory_IName:
  "\<forall>n ii. interfaces (fst (GenerateUMLFromDirectory w g0)) n = Some ii \<longrightarrow> IName ii = n"
proof (cases "findGoFiles w")
  case (Inl e)
  then show ?thesis by (simp add: fst_GenerateUMLFromDirectory NewUMLGenerator_def)
next
  case (Inr ps)
  have "\<forall>n ii. interfaces NewUMLGenerator n = Some ii \<longrightarrow> IName ii = n"
    by (simp add: NewUMLGenerator_def)
  from parseFiles_IName[OF this, of w ps] Inr show ?thesis
    by (simp only: fst_GenerateUMLFromDirectory sum.case)
qed

section \<open>The registry after a build\<close>

text \<open>
  C9 (as amended). After \<open>GenerateUMLFromDirectory\<close>, whether or not it returns an
  error: every registered struct and every registered interface carries the name
  it is registered under, so that no two structs and no two interfaces share a
  name; and, when no registered struct name starts with \<open>*\<close>, every relation
  has a registered struct as its \<open>From\<close> endpoint and a registered struct or
  interface as its \<open>To\<close> endpoint. Nothing keeps a name from being registered
  as a struct and as an interface at once.
\<close>

theorem C9_registry_and_endpoints:
  assumes run: "GenerateUMLFromDirectory w g0 = (g, err)"
    and star: "\<forall>n\<in>dom (structs g). \<not> HasPrefix n ''*''"
  shows "(\<forall>n si. structs g n = Some si \<longrightarrow> SName si = n) \<and>
         (\<forall>n ii. interfaces g n = Some ii \<longrightarrow> IName ii = n) \<and>
         (\<forall>r\<in>set (relations g).
            From r \<in> dom (structs g) \<and> (To r \<in> dom (structs g) \<or> To r \<in> dom (interfaces g)))"
proof -
  from run have g: "g = fst (GenerateUMLFromDirectory w g0)" by simp
  have a: "\<forall>n si. structs g n = Some si \<longrightarrow> SName si = n"
    unfolding g by (rule GenerateUMLFromDirectory_SName)
  have b: "\<forall>n ii. interfaces g n = Some ii \<longrightarrow> IName ii = n"
    unfolding g by (rule GenerateUMLFromDirectory_IName)
  have e: "endpoints_ok g" unfolding g by (rule GenerateUMLFromDirectory_endpoints)
  have c: "\<forall>r\<in>set (relations g).
            From r \<in> dom (structs g) \<and> (To r \<in> dom (structs g) \<or> To r \<in> dom (interfaces g))"
  proof
    fix r assume "r \<in> set (relations g)"
    with e have f: "From r \<in> dom (structs g)"
      and t: "To r \<in> dom (interfaces g) \<or> (\<exists>n\<in>dom (structs g). To r = TrimPrefix n ''*'')"
      by (auto simp: endpoints_ok_def)
    from t have "To r \<in> dom (structs g) \<or> To r \<in> dom (interfaces g)"
    proof
      assume "To r \<in> dom (interfaces g)"
      then show ?thesis by simp
    next
      assume "\<exists>n\<in>dom (structs g). To r = TrimPrefix n ''*''"
      then obtain n where n: "n \<in> dom (structs g)" "To r = TrimPrefix n ''*''" by blast
      with star have "TrimPrefix n ''*'' = n" by (intro TrimPrefix_id) blast
      with n show ?thesis by simp
    qed
    with f show "From r \<in> dom (structs g) \<and>
        (To r \<in> dom (structs g) \<or> To r \<in> dom (interfaces g))" by simp
  qed
  from a b c show ?thesis by blast
qed

text \<open>C9 as stated fails on two files that declare \<open>X\<close>, one as a struct and one as
  an interface: \<open>X\<close> is registered as both.\<close>

theorem C9_counterexample:
  "findGoFiles clashWorld = Inr [''a/x.go'', ''b/x.go''] \<and>
   structs clashGen ''X'' = Some \<lparr>SName = ''X'', Fields = [], Methods = []\<rparr> \<and>
   interfaces clashGen ''X'' = Some \<lparr>IName = ''X'', IMethods = []\<rparr>"
  by (simp add: clashGen_eq) (simp add: clashWorld_def)

text \<open>The hypotheses of C9 hold of the directory with \<open>a.go\<close> and \<open>b.go\<close>.\<close>

theorem C9_witness:
  "relations twoFileGen \<noteq> [] \<and>
   list_all (\<lambda>r. From r \<in> dom (structs twoFileGen) \<and>
                 (To r \<in> dom (structs twoFileGen) \<or> To r \<in> dom (interfaces twoFileGen)))
     (relations twoFileGen) \<and>
   map_option SName (structs twoFileGen ''Car'') = Some ''Car''"
proof -
  have run: "GenerateUMLFromDirectory twoFileWorld NewUMLGenerator = (twoFileGen, None)"
    using twoFile_err by (simp add: twoFileGen_def prod_eq_iff)
  have star: "\<forall>n\<in>dom (structs twoFileGen). \<not> HasPrefix n ''*''"
    by (simp add: twoFileGen_eq HasPrefix_def)
  have car: "structs twoFileGen ''Car'' = Some \<lparr>SName = ''Car'',
      Fields = [\<lparr>FName = ''Engine'', FType = ''Engine''\<rparr>], Methods = []\<rparr>"
    by (simp add: twoFileGen_eq)
  have ne: "relations twoFileGen \<noteq> []" by (simp add: twoFileGen_eq)
  from C9_registry_and_endpoints[OF run star] car ne show ?thesis by (simp add: list_all_iff)
qed

section \<open>A file that does not parse\<close>

lemma parseFiles_first_failure:
  assumes "\<forall>q\<in>set pre. \<exists>decls. ParseFile w q = Inr decls" and "ParseFile w p = Inl msg"
  shows "snd (parseFiles w g (pre @ p # post)) = Some (ParseFailure p msg)"
  using assms(1)
proof (induction pre arbitrary: g)
  case Nil
  show ?case unfolding append_Nil parseFiles_Cons_Inl[OF assms(2)] by simp
next
  case (Cons q pre)
  then obtain decls where q: "ParseFile w q = Inr decls" by auto
  from Cons.prems have "\<forall>q\<in>set pre. \<exists>decls. ParseFile w q = Inr decls" by simp
  from Cons.IH[OF this] show ?case unfolding append_Cons parseFiles_Cons_Inr[OF q] .
qed

lemma regenerate_failure:
  "snd (GenerateUMLFromDirectory (pass ob) NewUMLGenerator) = Some err \<Longrightarrow>
     regenerate ob = [GenerationFailed err]"
  by (cases "GenerateUMLFromDirectory (pass ob) NewUMLGenerator") (simp add: regenerate_def)

lemma Watch_tick_changed:
  "scan ob = Inr goFiles \<Longrightarrow> snd (scanChanges (stat ob) (lastModified fw) goFiles) \<Longrightarrow>
     snd (Watch_tick fw ob) = ChangeDetected # regenerate ob"
  by (simp add: Watch_tick_def Let_def)

lemma Watch_loop_Cons:
  "Watch_loop fw (ob # rest) =
     (fst (Watch_loop (fst (Watch_tick fw ob)) rest),
      snd (Watch_tick fw ob) @ snd (Watch_loop (fst (Watch_tick fw ob)) rest))"
  by (simp add: Let_def)

lemma Watch_start_failure:
  "scan ob = Inr goFiles \<Longrightarrow>
     snd (GenerateUMLFromDirectory (pass ob) NewUMLGenerator) = Some err \<Longrightarrow>
     Watch_start fw ob = (None, [GenerationFailed err])"
  by (cases "GenerateUMLFromDirectory (pass ob) NewUMLGenerator")
     (simp add: Watch_start_def Let_def)

text \<open>
  C8 (as amended). Let \<open>p\<close> be the first file of the directory that does not
  parse. \<open>ParseGoFile\<close> on \<open>p\<close> returns the error with the path and the
  parser's message and leaves the generator as it was; \<open>GenerateUMLFromDirectory\<close>
  returns that error; the regeneration of the watcher then reports it and hands
  nothing to the writer. In a turn of the loop that detects a change, the events
  are the notice of the change and the report, and the loop goes on with the
  next observation. The pass that \<open>Watch\<close> runs before the loop is different:
  there the failure is reported and \<open>Watch\<close> returns, whatever observations
  would follow.
\<close>

theorem C8_parse_failure_aborts_pass:
  assumes files: "findGoFiles w = Inr (pre @ p # post)"
    and pre: "\<forall>q\<in>set pre. \<exists>decls. ParseFile w q = Inr decls"
    and bad: "ParseFile w p = Inl msg"
  shows "ParseGoFile w g p = (g, Some (ParseFailure p msg)) \<and>
         snd (GenerateUMLFromDirectory w g) = Some (ParseFailure p msg) \<and>
         (pass ob = w \<longrightarrow> regenerate ob = [GenerationFailed (ParseFailure p msg)]) \<and>
         (pass ob = w \<longrightarrow> scan ob = Inr goFiles \<longrightarrow>
          snd (scanChanges (stat ob) (lastModified fw) goFiles) \<longrightarrow>
            snd (Watch_tick fw ob) = [ChangeDetected, GenerationFailed (ParseFailure p msg)] \<and>
            Watch_loop fw (ob # rest) =
              (fst (Watch_loop (fst (Watch_tick fw ob)) rest),
               [ChangeDetected, GenerationFailed (ParseFailure p msg)] @
               snd (Watch_loop (fst (Watch_tick fw ob)) rest))) \<and>
         (pass ob = w \<longrightarrow> scan ob = Inr goFiles \<longrightarrow>
            Watch fw ob ticks = (None, [GenerationFailed (ParseFailure p msg)]))"
proof -
  have a: "ParseGoFile w g p = (g, Some (ParseFailure p msg))"
    using bad by (rule ParseGoFile_Inl)
  have b: "snd (GenerateUMLFromDirectory w g) = Some (ParseFailure p msg)" for g
    unfolding GenerateUMLFromDirectory_Inr[OF files]
    using pre bad by (rule parseFiles_first_failure)
  have c: "regenerate ob = [GenerationFailed (ParseFailure p msg)]" if "pass ob = w"
    using b[of NewUMLGenerator] that by (intro regenerate_failure) simp
  have d: "snd (Watch_tick fw ob) = [ChangeDetected, GenerationFailed (ParseFailure p msg)]"
    if "pass ob = w" "scan ob = Inr goFiles"
      "snd (scanChanges (stat ob) (lastModified fw) goFiles)"
    using Watch_tick_changed[OF that(2,3)] c[OF that(1)] by simp
  have e: "Watch_loop fw (ob # rest) =
              (fst (Watch_loop (fst (Watch_tick fw ob)) rest),
               [ChangeDetected, GenerationFailed (ParseFailure p msg)] @
               snd (Watch_loop (fst (Watch_tick fw ob)) rest))"
    if "pass ob = w" "scan ob = Inr goFiles"
      "snd (scanChanges (stat ob) (lastModified fw) goFiles)"
    unfolding Watch_loop_Cons d[OF that] ..
  have f: "Watch fw ob ticks = (None, [GenerationFailed (ParseFailure p msg)])"
    if "pass ob = w" "scan ob = Inr goFiles"
  proof -
    have "snd (GenerateUMLFromDirectory (pass ob) NewUMLGenerator) = Some (ParseFailure p msg)"
      using b[of NewUMLGenerator] that(1) by simp
    from Watch_start_failure[OF that(2) this] show ?thesis by (simp add: Watch_def)
  qed
  from a b c d e f show ?thesis by blast
qed


lemmas watch_defs = Watch_def Watch_start_def Watch_tick_def scanChanges_def noteFile_def
  regenerate_def GenerateUMLDiagram_def NewFileWatcher_def badObservation_def
  goodObservation_def plainDiagram_def GenerateUMLFromDirectory_def Reset_def
  GeneratePlantUML_def classBlocks_def interfaceBlocks_def classBlock_def fieldLines_def
  relationLine_def nl_def

text \<open>C8 as stated fails at the first pass: the directory holds a file that does
  not parse when \<open>Watch\<close> starts, \<open>Watch\<close> returns, and the observation that
  would follow is never looked at.\<close>

theorem C8_counterexample:
  "Watch (NewFileWatcher ''src'' ''out'') badObservation [goodObservation] =
     (None, [GenerationFailed (ParseFailure ''bad.go'' ''expected declaration'')])"
  by (simp add: watch_defs world_defs eval_defs)

lemma good_after_bad:
  "snd (Watch_loop (fst (Watch_tick (NewFileWatcher ''src'' ''out'') badObservation))
         [goodObservation]) =
     [ChangeDetected,
      PumlWritten ''@startuml\<newline>\<newline>class Engine {\<newline>}\<newline>\<newline>class Car {\<newline>}\<newline>\<newline>Engine <|-- Car\<newline>\<newline>@enduml'']"
  by (simp add: watch_defs world_defs eval_defs singleFile_def)

text \<open>The hypotheses of C8 hold of the directory with \<open>a.go\<close> and \<open>bad.go\<close>: the
  run leaves a registry with the structs of \<open>a.go\<close>, nothing is written in that
  turn, and the next turn writes.\<close>

theorem C8_witness:
  "snd (GenerateUMLFromDirectory badWorld NewUMLGenerator) =
     Some (ParseFailure ''bad.go'' ''expected declaration'') \<and>
   dom (structs (fst (GenerateUMLFromDirectory badWorld NewUMLGenerator))) = {''Engine'', ''Car''} \<and>
   snd (Watch_loop (NewFileWatcher ''src'' ''out'') [badObservation, goodObservation]) =
     [ChangeDetected, GenerationFailed (ParseFailure ''bad.go'' ''expected declaration''),
      ChangeDetected,
      PumlWritten ''@startuml\<newline>\<newline>class Engine {\<newline>}\<newline>\<newline>class Car {\<newline>}\<newline>\<newline>Engine <|-- Car\<newline>\<newline>@enduml'']"
proof -
  let ?fw = "NewFileWatcher ''src'' ''out''"
  have files: "findGoFiles badWorld = Inr ([''a.go''] @ ''bad.go'' # [])"
    by (simp add: badWorld_def)
  have pre: "\<forall>q\<in>set [''a.go'']. \<exists>decls. ParseFile badWorld q = Inr decls"
    by (simp add: badWorld_def)
  have bad: "ParseFile badWorld ''bad.go'' = Inl ''expected declaration''"
    by (simp add: badWorld_def)
  have p: "pass badObservation = badWorld" by (simp add: badObservation_def)
  have sc: "scan badObservation = Inr [''a.go'', ''bad.go'']" by (simp add: badObservation_def)
  have ch: "snd (scanChanges (stat badObservation) (lastModified ?fw) [''a.go'', ''bad.go''])"
    by (simp add: scanChanges_def noteFile_def badObservation_def NewFileWatcher_def)
  note inst = C8_parse_failure_aborts_pass[OF files pre bad, where g = NewUMLGenerator and ob = badObservation
      and fw = ?fw and goFiles = "[''a.go'', ''bad.go'']" and rest = "[goodObservation]"]
  from inst have a: "snd (GenerateUMLFromDirectory badWorld NewUMLGenerator) =
     Some (ParseFailure ''bad.go'' ''expected declaration'')" by blast
  from inst p sc ch have "Watch_loop ?fw [badObservation, goodObservation] =
      (fst (Watch_loop (fst (Watch_tick ?fw badObservation)) [goodObservation]),
       [ChangeDetected, GenerationFailed (ParseFailure ''bad.go'' ''expected declaration'')] @
       snd (Watch_loop (fst (Watch_tick ?fw badObservation)) [goodObservation]))"
    by blast
  then have b: "snd (Watch_loop ?fw [badObservation, goodObservation]) =
     [ChangeDetected, GenerationFailed (ParseFailure ''bad.go'' ''expected declaration''),
      ChangeDetected,
      PumlWritten ''@startuml\<newline>\<newline>class Engine {\<newline>}\<newline>\<newline>class Car {\<newline>}\<newline>\<newline>Engine <|-- Car\<newline>\<newline>@enduml'']"
    by (simp only: good_after_bad snd_conv append_Cons append_Nil)
  have c: "dom (structs (fst (GenerateUMLFromDirectory badWorld NewUMLGenerator))) =
      {''Engine'', ''Car''}"
    by (simp add: GenerateUMLFromDirectory_def Reset_def world_defs eval_defs) auto
  from a b c show ?thesis by simp
qed

section \<open>Every pass starts from nothing\<close>

lemma GenerateUMLFromDirectory_fresh:
  "GenerateUMLFromDirectory w g = GenerateUMLFromDirectory w g'"
  by (simp add: GenerateUMLFromDirectory_def Reset_eq)

lemma GenerateUMLFromDirectory_declared:
  assumes "n \<in> dom (structs (fst (GenerateUMLFromDirectory w g))) \<union>
               dom (interfaces (fst (GenerateUMLFromDirectory w g)))"
  shows "\<exists>ps. findGoFiles w = Inr ps \<and> declaredBy w ps n"
proof (cases "findGoFiles w")
  case (Inl e)
  with assms show ?thesis by (simp add: fst_GenerateUMLFromDirectory NewUMLGenerator_def)
next
  case (Inr ps)
  have "\<forall>n. n \<in> dom (structs NewUMLGenerator) \<union> dom (interfaces NewUMLGenerator) \<longrightarrow>
      declaredBy w ps n"
    by (simp add: NewUMLGenerator_def)
  from parseFiles_declared[OF this] assms Inr show ?thesis
    by (simp only: fst_GenerateUMLFromDirectory sum.case) blast
qed

lemma regenerate_written:
  assumes "PumlWritten text \<in> set (regenerate ob)"
  shows "text = GeneratePlantUML (structOrder (diagram ob)) (interfaceOrder (diagram ob))
                  (fst (GenerateUMLFromDirectory (pass ob) NewUMLGenerator))"
proof (cases "GenerateUMLFromDirectory (pass ob) NewUMLGenerator")
  case (Pair g err)
  show ?thesis
  proof (cases err)
    case (Some e)
    with Pair assms show ?thesis by (simp add: regenerate_def)
  next
    case None
    have "set (regenerate ob) \<subseteq>
        set (fst (GenerateUMLDiagram (diagram ob) g)) \<union> range DiagramFailed"
      using Pair None
      by (cases "GenerateUMLDiagram (diagram ob) g") (auto simp: regenerate_def split: option.splits)
    with assms have "PumlWritten text \<in> set (fst (GenerateUMLDiagram (diagram ob) g))"
      by auto
    then have "text = GeneratePlantUML (structOrder (diagram ob)) (interfaceOrder (diagram ob)) g"
      by (auto simp: GenerateUMLDiagram_def Let_def split: option.splits if_splits prod.splits)
    with Pair show ?thesis by simp
  qed
qed

lemma noteFile_keys: "fst ` set lm \<subseteq> fst ` set (fst (noteFile st (lm, ch) filePath))"
  by (auto simp: noteFile_def dom_update split: option.splits)

lemma foldl_noteFile_keys:
  "fst ` set (fst acc) \<subseteq> fst ` set (fst (foldl (noteFile st) acc goFiles))"
proof (induction goFiles arbitrary: acc)
  case Nil
  then show ?case by simp
next
  case (Cons filePath goFiles)
  have "fst ` set (fst acc) \<subseteq> fst ` set (fst (noteFile st acc filePath))"
    using noteFile_keys[of "fst acc" st "snd acc" filePath] by simp
  with Cons.IH[of "noteFile st acc filePath"] show ?case by auto
qed

lemma scanChanges_deleted:
  assumes "p \<in> fst ` set lm" and "p \<notin> set goFiles"
  shows "snd (scanChanges st lm goFiles) \<and> p \<notin> fst ` set (fst (scanChanges st lm goFiles))"
proof -
  let ?seen = "foldl (noteFile st) (lm, False) goFiles"
  from foldl_noteFile_keys[of "(lm, False)" st goFiles] assms(1)
  have "p \<in> fst ` set (fst ?seen)" by auto
  with assms(2) have "list_ex (\<lambda>entry. fst entry \<notin> set goFiles) (fst ?seen)"
    by (auto simp: list_ex_iff)
  moreover from assms(2) have "p \<notin> fst ` set (filter (\<lambda>entry. fst entry \<in> set goFiles) (fst ?seen))"
    by auto
  ultimately show ?thesis by (simp add: scanChanges_def Let_def)
qed

text \<open>
  C7. A pass does not depend on the generator it starts from:
  \<open>GenerateUMLFromDirectory\<close> resets it, and the watcher runs every pass on a
  generator made afresh. Every name in the registry after a pass is declared in
  a file that the pass found and parsed, and every relation has a registered
  struct as its \<open>From\<close> endpoint and a registered name as its \<open>To\<close> endpoint (up
  to one leading \<open>*\<close> of a struct name). The text a regeneration writes is the
  rendering of that registry. And when a path the watcher knows is no longer
  among the files found, the turn detects a change, regenerates, and forgets the
  path.
\<close>

theorem C7_rebuild_from_empty:
  "GenerateUMLFromDirectory w g = GenerateUMLFromDirectory w g' \<and>
   (n \<in> dom (structs (fst (GenerateUMLFromDirectory w g))) \<union>
        dom (interfaces (fst (GenerateUMLFromDirectory w g))) \<longrightarrow>
      (\<exists>ps. findGoFiles w = Inr ps \<and> declaredBy w ps n)) \<and>
   (r \<in> set (relations (fst (GenerateUMLFromDirectory w g))) \<longrightarrow>
      From r \<in> dom (structs (fst (GenerateUMLFromDirectory w g))) \<and>
      (To r \<in> dom (interfaces (fst (GenerateUMLFromDirectory w g))) \<or>
       (\<exists>k\<in>dom (structs (fst (GenerateUMLFromDirectory w g))). To r = TrimPrefix k ''*''))) \<and>
   (PumlWritten text \<in> set (regenerate ob) \<longrightarrow>
      text = GeneratePlantUML (structOrder (diagram ob)) (interfaceOrder (diagram ob))
               (fst (GenerateUMLFromDirectory (pass ob) NewUMLGenerator))) \<and>
   (scan ob = Inr goFiles \<longrightarrow> p \<in> fst ` set (lastModified fw) \<longrightarrow> p \<notin> set goFiles \<longrightarrow>
      snd (Watch_tick fw ob) = ChangeDetected # regenerate ob \<and>
      p \<notin> fst ` set (lastModified (fst (Watch_tick fw ob))))"
proof (intro conjI impI)
  show "GenerateUMLFromDirectory w g = GenerateUMLFromDirectory w g'"
    by (rule GenerateUMLFromDirectory_fresh)
next
  assume "n \<in> dom (structs (fst (GenerateUMLFromDirectory w g))) \<union>
        dom (interfaces (fst (GenerateUMLFromDirectory w g)))"
  then show "\<exists>ps. findGoFiles w = Inr ps \<and> declaredBy w ps n"
    by (rule GenerateUMLFromDirectory_declared)
next
  assume r: "r \<in> set (relations (fst (GenerateUMLFromDirectory w g)))"
  from GenerateUMLFromDirectory_endpoints[of w g] r
  show "From r \<in> dom (structs (fst (GenerateUMLFromDirectory w g)))"
    and "To r \<in> dom (interfaces (fst (GenerateUMLFromDirectory w g))) \<or>
       (\<exists>k\<in>dom (structs (fst (GenerateUMLFromDirectory w g))). To r = TrimPrefix k ''*'')"
    unfolding endpoints_ok_def by blast+
next
  assume "PumlWritten text \<in> set (regenerate ob)"
  then show "text = GeneratePlantUML (structOrder (diagram ob)) (interfaceOrder (diagram ob))
               (fst (GenerateUMLFromDirectory (pass ob) NewUMLGenerator))"
    by (rule regenerate_written)
next
  assume a: "scan ob = Inr goFiles" "p \<in> fst ` set (lastModified fw)" "p \<notin> set goFiles"
  from scanChanges_deleted[OF a(2,3), of "stat ob"] a(1)
  show "snd (Watch_tick fw ob) = ChangeDetected # regenerate ob"
    and "p \<notin> fst ` set (lastModified (fst (Watch_tick fw ob)))"
    by (simp_all add: Watch_tick_def Let_def)
qed

text \<open>C7 on the directory with \<open>a.go\<close> and \<open>b.go\<close>, started from a generator that
  is not empty, and on a turn in which \<open>old.go\<close> has gone.\<close>

theorem C7_witness:
  "GenerateUMLFromDirectory twoFileWorld twoFileGen =
     GenerateUMLFromDirectory twoFileWorld NewUMLGenerator \<and>
   declaredBy twoFileWorld [''a.go'', ''b.go''] ''Holder'' \<and>
   Watch_tick staleWatcher goodObservation =
     (\<lparr>dirPath = ''src'', lastModified = [(''main.go'', 2)], outputDir = ''out''\<rparr>,
      [ChangeDetected,
       PumlWritten ''@startuml\<newline>\<newline>class Engine {\<newline>}\<newline>\<newline>class Car {\<newline>}\<newline>\<newline>Engine <|-- Car\<newline>\<newline>@enduml''])"
proof -
  note inst = C7_rebuild_from_empty[where w = twoFileWorld and g = twoFileGen and g' = NewUMLGenerator
      and n = "''Holder''" and ob = goodObservation and goFiles = "[''main.go'']"
      and p = "''old.go''" and fw = staleWatcher]
  have eq: "fst (GenerateUMLFromDirectory twoFileWorld twoFileGen) = twoFileGen"
    unfolding GenerateUMLFromDirectory_fresh[of twoFileWorld twoFileGen NewUMLGenerator]
    by (simp add: twoFileGen_def)
  have h: "''Holder'' \<in> dom (structs (fst (GenerateUMLFromDirectory twoFileWorld twoFileGen))) \<union>
        dom (interfaces (fst (GenerateUMLFromDirectory twoFileWorld twoFileGen)))"
    unfolding eq by (simp add: twoFileGen_eq)
  have fs: "findGoFiles twoFileWorld = Inr [''a.go'', ''b.go'']" by (simp add: twoFileWorld_def)
  from inst[THEN conjunct2, THEN conjunct1, THEN mp, OF h] fs
  have a: "declaredBy twoFileWorld [''a.go'', ''b.go''] ''Holder''" by auto
  from inst[THEN conjunct1] have b: "GenerateUMLFromDirectory twoFileWorld twoFileGen =
     GenerateUMLFromDirectory twoFileWorld NewUMLGenerator" .
  have sc: "scan goodObservation = Inr [''main.go'']" by (simp add: goodObservation_def)
  have old: "''old.go'' \<in> fst ` set (lastModified staleWatcher)" "''old.go'' \<notin> set [''main.go'']"
    by (simp_all add: staleWatcher_def)
  from inst[THEN conjunct2, THEN conjunct2, THEN conjunct2, THEN conjunct2, THEN mp, OF sc,
      THEN mp, OF old(1), THEN mp, OF old(2)]
  have c: "snd (Watch_tick staleWatcher goodObservation) = ChangeDetected # regenerate goodObservation"
    by simp
  have d: "regenerate goodObservation =
      [PumlWritten ''@startuml\<newline>\<newline>class Engine {\<newline>}\<newline>\<newline>class Car {\<newline>}\<newline>\<newline>Engine <|-- Car\<newline>\<newline>@enduml'']"
    by (simp add: watch_defs world_defs eval_defs singleFile_def)
  have e: "fst (Watch_tick staleWatcher goodObservation) =
      \<lparr>dirPath = ''src'', lastModified = [(''main.go'', 2)], outputDir = ''out''\<rparr>"
    by (simp add: Watch_tick_def scanChanges_def noteFile_def staleWatcher_def
        goodObservation_def Let_def)
  from a b c d e show ?thesis by (simp add: prod_eq_iff)
qed

section \<open>Relations pile up from file to file\<close>

lemma keeps_refl: "keeps g g"
  by (simp add: keeps_def)

lemma keeps_cong:
  "keeps a g \<Longrightarrow> structs g' = structs g \<Longrightarrow> interfaces g' = interfaces g \<Longrightarrow> keeps a g'"
  by (simp add: keeps_def)

lemma keeps_struct:
  "keeps a g \<Longrightarrow> structs a n = Some si \<Longrightarrow>
     \<exists>si'. structs g n = Some si' \<and> Fields si' = Fields si \<and> set (Methods si) \<subseteq> set (Methods si')"
  unfolding keeps_def by blast

lemma keeps_interface: "keeps a g \<Longrightarrow> interfaces a n = Some ii \<Longrightarrow> interfaces g n = Some ii"
  unfolding keeps_def by blast

lemma fieldRelations_keeps:
  assumes k: "keeps a g" and r: "r \<in> set (fieldRelations a S f)"
  shows "r \<in> set (fieldRelations g S f)"
proof -
  have s: "structs g n \<noteq> None" if "structs a n \<noteq> None" for n
    using that keeps_struct[OF k] by fastforce
  have i: "interfaces g n \<noteq> None" if "interfaces a n \<noteq> None" for n
    using that keeps_interface[OF k] by fastforce
  from r consider "structs a (FType f) \<noteq> None"
      "r = \<lparr>From = S, To = TrimPrefix (FType f) ''*'',
           RType = (if FName f = FType f then ''extends''
                    else if HasPrefix (FType f) ''*'' then ''composition'' else ''aggregation''),
           Cardinality = ''1''\<rparr>"
    | "interfaces a (FType f) \<noteq> None"
      "r = \<lparr>From = S, To = FType f, RType = ''implements'', Cardinality = ''''\<rparr>"
    unfolding in_fieldRelations by blast
  then show ?thesis
  proof cases
    case 1
    with s show ?thesis unfolding in_fieldRelations by blast
  next
    case 2
    with i show ?thesis unfolding in_fieldRelations by blast
  qed
qed

lemma implementsInterface_mono:
  "implementsInterface si ii \<Longrightarrow> set (Methods si) \<subseteq> set (Methods si') \<Longrightarrow>
     implementsInterface si' ii"
  unfolding implementsInterface_iff by blast

lemma inferred_keeps:
  assumes k: "keeps a g" and ok: "range_ok g ord" and r: "r \<in> set (inferred ord0 a)"
  shows "r \<in> set (inferred ord g)"
proof (cases "r \<in> set (memberRelations a (memberStructs ord0))")
  case True
  then obtain S si f where sf: "structs a S = Some si" "f \<in> set (Fields si)"
      "r \<in> set (fieldRelations a S f)"
    unfolding in_memberRelations by blast
  from keeps_struct[OF k sf(1)] obtain si' where si': "structs g S = Some si'"
      "Fields si' = Fields si" by blast
  have "S \<in> set (memberStructs ord)" using ok si'(1) by (rule range_ok_member)
  moreover have "f \<in> set (Fields si')" using sf(2) si'(2) by simp
  moreover have "r \<in> set (fieldRelations g S f)" using k sf(3) by (rule fieldRelations_keeps)
  ultimately have "r \<in> set (memberRelations g (memberStructs ord))"
    unfolding in_memberRelations using si'(1) by blast
  then show ?thesis by (simp add: inferred_def)
next
  case False
  with r have "r \<in> set (satisfactionRelations a (satisfactionStructs ord0)
      (satisfactionInterfaces ord0))"
    by (simp add: inferred_def)
  then obtain S si I ii where x: "structs a S = Some si" "interfaces a I = Some ii"
      "implementsInterface si ii" "IMethods ii \<noteq> []"
      "r = \<lparr>From = S, To = I, RType = ''implements'', Cardinality = ''''\<rparr>"
    unfolding in_satisfactionRelations by blast
  from keeps_struct[OF k x(1)] obtain si' where si': "structs g S = Some si'"
      "set (Methods si) \<subseteq> set (Methods si')" by blast
  from keeps_interface[OF k x(2)] have ii: "interfaces g I = Some ii" .
  from implementsInterface_mono[OF x(3) si'(2)] have "implementsInterface si' ii" .
  with si'(1) ii x(4,5) range_ok_satisfaction[OF ok si'(1)] range_ok_interfaces[OF ok si'(1) ii]
  have "r \<in> set (satisfactionRelations g (satisfactionStructs ord) (satisfactionInterfaces ord))"
    unfolding in_satisfactionRelations by blast
  then show ?thesis by (simp add: inferred_def)
qed

lemma count_list_ge1: "x \<in> set xs \<Longrightarrow> 1 \<le> count_list xs x"
  by (metis count_list_0_iff not_less_eq_eq le_zero_eq One_nat_def)

lemma ParseGoFile_relations:
  "ParseFile w q = Inr decls \<Longrightarrow>
     relations (fst (ParseGoFile w g q)) =
       relations g @ inferred (rangeOrder w q) (foldl processDecl g decls)"
proof -
  assume q: "ParseFile w q = Inr decls"
  have "relations (foldl processDecl g decls) = relations g"
    using extraction_evolves by (rule evolves_relations)
  then show ?thesis by (simp add: ParseGoFile_Inr[OF q])
qed

lemma count_grows:
  assumes r0: "r \<in> set (inferred ord0 a)"
  shows "keeps a g \<Longrightarrow> \<forall>q\<in>set ps. \<exists>decls. ParseFile w q = Inr decls \<Longrightarrow>
     \<forall>q\<in>set ps. \<forall>decls. ParseFile w q = Inr decls \<longrightarrow>
        set (declaredTypes decls) \<inter> (dom (structs a) \<union> dom (interfaces a)) = {} \<Longrightarrow>
     ranges_ok w g ps \<Longrightarrow>
     snd (parseFiles w g ps) = None \<and>
     count_list (relations g) r + length ps \<le> count_list (relations (fst (parseFiles w g ps))) r"
proof (induction ps arbitrary: g)
  case Nil
  then show ?case by simp
next
  case (Cons q ps)
  from Cons.prems(2) obtain decls where q: "ParseFile w q = Inr decls" by auto
  let ?g' = "foldl processDecl g decls"
  let ?g'' = "identifyRelations (rangeOrder w q) ?g'"
  from Cons.prems(3) q have fr: "set (declaredTypes decls) \<inter>
      (dom (structs a) \<union> dom (interfaces a)) = {}" by simp
  have k': "keeps a ?g'" using extraction_evolves Cons.prems(1) fr by (rule evolves_keeps)
  then have k'': "keeps a ?g''" by (rule keeps_cong) simp_all
  from Cons.prems(4) q have ok: "range_ok ?g' (rangeOrder w q)" and
      rest: "ranges_ok w ?g'' ps"
    by (simp_all add: ParseGoFile_Inr)
  have "r \<in> set (inferred (rangeOrder w q) ?g')" using k' ok r0 by (rule inferred_keeps)
  then have one: "1 \<le> count_list (inferred (rangeOrder w q) ?g') r" by (rule count_list_ge1)
  have rel0: "relations ?g' = relations g" using extraction_evolves by (rule evolves_relations)
  then have rel: "relations ?g'' = relations g @ inferred (rangeOrder w q) ?g'"
    by simp
  from Cons.prems(2,3) have p2: "\<forall>q\<in>set ps. \<exists>decls. ParseFile w q = Inr decls"
    and p3: "\<forall>q\<in>set ps. \<forall>decls. ParseFile w q = Inr decls \<longrightarrow>
        set (declaredTypes decls) \<inter> (dom (structs a) \<union> dom (interfaces a)) = {}"
    by simp_all
  from Cons.IH[OF k'' p2 p3 rest]
  have ih: "snd (parseFiles w ?g'' ps) = None"
    "count_list (relations ?g'') r + length ps \<le> count_list (relations (fst (parseFiles w ?g'' ps))) r"
    by simp_all
  from ih(2) one have "count_list (relations g) r + length (q # ps) \<le>
      count_list (relations (fst (parseFiles w ?g'' ps))) r"
    by (simp add: rel0)
  with ih(1) show ?case unfolding parseFiles_Cons_Inr[OF q] by simp
qed

text \<open>
  C10 (as amended). Relation inference runs once after each parseable file and appends to
  the relation list, which is never cleared in between: the list after a file is the list
  before it followed by what is inferred from the registry as the file's declarations leave
  it. In a directory whose \<open>n\<close> files all parse, the run has no error, and a relation
  inferred after the first file occurs at least \<open>n\<close> times in the final relation list, and
  its line at least \<open>n\<close> times among the relation lines of the rendered text, provided no
  later file declares a type name that the first file registered and every map loop visits
  the registry as it then is. (A later file that declares such a name again overwrites the
  entry, and the relation need not be inferred again; a struct with two fields of one type
  gives the relation twice per file.)
\<close>

theorem C10_relations_accumulate:
  assumes files: "findGoFiles w = Inr (p # rest)"
    and parses: "\<forall>q\<in>set (p # rest). \<exists>decls. ParseFile w q = Inr decls"
    and r: "r \<in> set (relations (fst (ParseGoFile w NewUMLGenerator p)))"
    and fresh: "\<forall>q\<in>set rest. \<forall>decls. ParseFile w q = Inr decls \<longrightarrow>
        set (declaredTypes decls) \<inter>
          (dom (structs (fst (ParseGoFile w NewUMLGenerator p))) \<union>
           dom (interfaces (fst (ParseGoFile w NewUMLGenerator p)))) = {}"
    and ranges: "ranges_ok w NewUMLGenerator (p # rest)"
  shows "(ParseFile w q = Inr decls \<longrightarrow>
            relations (fst (ParseGoFile w g' q)) =
              relations g' @ inferred (rangeOrder w q) (foldl processDecl g' decls)) \<and>
         snd (GenerateUMLFromDirectory w g) = None \<and>
         length (p # rest) \<le> count_list (relations (fst (GenerateUMLFromDirectory w g))) r \<and>
         length (p # rest) \<le>
           count_list (map relationLine (relations (fst (GenerateUMLFromDirectory w g))))
             (relationLine r) \<and>
         GeneratePlantUML ks iks (fst (GenerateUMLFromDirectory w g)) =
           ''@startuml'' @ nl @ nl @
           concat (classBlocks (fst (GenerateUMLFromDirectory w g)) ks) @
           concat (interfaceBlocks (fst (GenerateUMLFromDirectory w g)) iks) @
           concat (map relationLine (relations (fst (GenerateUMLFromDirectory w g)))) @
           nl @ ''@enduml''"
proof -
  from parses obtain d1 where p: "ParseFile w p = Inr d1" by auto
  let ?g0 = "foldl processDecl NewUMLGenerator d1"
  let ?g1 = "identifyRelations (rangeOrder w p) ?g0"
  have g1: "fst (ParseGoFile w NewUMLGenerator p) = ?g1" by (simp add: ParseGoFile_Inr[OF p])
  have same: "inferred (rangeOrder w p) ?g1 = inferred (rangeOrder w p) ?g0"
    by (rule inferred_cong) simp_all
  have "relations ?g0 = relations NewUMLGenerator"
    using extraction_evolves by (rule evolves_relations)
  then have rel1: "relations ?g1 = inferred (rangeOrder w p) ?g1"
    unfolding same by (simp add: NewUMLGenerator_def)
  from r have r1: "r \<in> set (inferred (rangeOrder w p) ?g1)" unfolding g1 rel1 .
  then have one: "1 \<le> count_list (relations ?g1) r" unfolding rel1 by (rule count_list_ge1)
  from parses have p2: "\<forall>q\<in>set rest. \<exists>decls. ParseFile w q = Inr decls" by simp
  from fresh have p3: "\<forall>q\<in>set rest. \<forall>decls. ParseFile w q = Inr decls \<longrightarrow>
        set (declaredTypes decls) \<inter> (dom (structs ?g1) \<union> dom (interfaces ?g1)) = {}"
    unfolding g1 .
  from ranges p have p4: "ranges_ok w ?g1 rest" by (simp add: ParseGoFile_Inr)
  from count_grows[OF r1 keeps_refl p2 p3 p4]
  have c: "snd (parseFiles w ?g1 rest) = None"
    "count_list (relations ?g1) r + length rest \<le>
       count_list (relations (fst (parseFiles w ?g1 rest))) r"
    by simp_all
  have run: "GenerateUMLFromDirectory w g = parseFiles w ?g1 rest"
    unfolding GenerateUMLFromDirectory_Inr[OF files] parseFiles_Cons_Inr[OF p] ..
  from c(2) one have n: "length (p # rest) \<le>
      count_list (relations (fst (GenerateUMLFromDirectory w g))) r"
    unfolding run by simp
  also have "\<dots> \<le> count_list (map relationLine (relations (fst (GenerateUMLFromDirectory w g))))
             (relationLine r)"
    by (rule count_list_map_ge)
  finally have m: "length (p # rest) \<le>
      count_list (map relationLine (relations (fst (GenerateUMLFromDirectory w g))))
        (relationLine r)" .
  have a: "ParseFile w q = Inr decls \<longrightarrow>
            relations (fst (ParseGoFile w g' q)) =
              relations g' @ inferred (rangeOrder w q) (foldl processDecl g' decls)"
    by (simp add: ParseGoFile_relations)
  have t: "GeneratePlantUML ks iks (fst (GenerateUMLFromDirectory w g)) =
           ''@startuml'' @ nl @ nl @
           concat (classBlocks (fst (GenerateUMLFromDirectory w g)) ks) @
           concat (interfaceBlocks (fst (GenerateUMLFromDirectory w g)) iks) @
           concat (map relationLine (relations (fst (GenerateUMLFromDirectory w g)))) @
           nl @ ''@enduml''"
    by (simp add: GeneratePlantUML_def)
  have e: "snd (GenerateUMLFromDirectory w g) = None" using c(1) unfolding run .
  from a e n m t show ?thesis by blast
qed


text \<open>
  C10 as stated fails on the directory with \<open>a/b.go\<close> (structs \<open>A\<close> and \<open>B\<close>, \<open>B\<close>
  with a field of type \<open>A\<close>) and \<open>c/b.go\<close> (another struct \<open>B\<close>, with no field): both
  files parse, and the relation from \<open>B\<close> to \<open>A\<close>, among types of the first file, occurs
  once in the final list, not twice.
\<close>

theorem C10_counterexample:
  "findGoFiles redeclWorld = Inr [''a/b.go'', ''c/b.go''] \<and>
   (\<exists>decls. ParseFile redeclWorld ''a/b.go'' = Inr decls \<and> declaredTypes decls = [''A'', ''B'']) \<and>
   (\<exists>decls. ParseFile redeclWorld ''c/b.go'' = Inr decls \<and> declaredTypes decls = [''B'']) \<and>
   relations (fst (ParseGoFile redeclWorld NewUMLGenerator ''a/b.go'')) =
     [\<lparr>From = ''B'', To = ''A'', RType = ''aggregation'', Cardinality = ''1''\<rparr>] \<and>
   snd (GenerateUMLFromDirectory redeclWorld NewUMLGenerator) = None \<and>
   count_list (relations redeclGen)
     \<lparr>From = ''B'', To = ''A'', RType = ''aggregation'', Cardinality = ''1''\<rparr> = 1 \<and>
   count_list (map relationLine (relations redeclGen)) (''B o-- A'' @ nl) = 1"
  by (simp add: redeclGen_eq relationLine_def)
     (simp add: GenerateUMLFromDirectory_def Reset_def world_defs eval_defs declaredTypes_def declaredIn_def)

text \<open>C10 on the directory with \<open>a.go\<close> and \<open>b.go\<close>: \<open>Car\<close> extends \<open>Engine\<close> is
  inferred after each of the two files.\<close>

theorem C10_witness:
  "snd (GenerateUMLFromDirectory twoFileWorld NewUMLGenerator) = None \<and>
   length [''a.go'', ''b.go''] \<le> count_list (relations twoFileGen)
     \<lparr>From = ''Car'', To = ''Engine'', RType = ''extends'', Cardinality = ''1''\<rparr> \<and>
   length [''a.go'', ''b.go''] \<le> count_list (map relationLine (relations twoFileGen))
     (''Engine <|-- Car'' @ nl) \<and>
   relations (fst (ParseGoFile twoFileWorld NewUMLGenerator ''a.go'')) =
     [\<lparr>From = ''Car'', To = ''Engine'', RType = ''extends'', Cardinality = ''1''\<rparr>]"
proof -
  let ?r = "\<lparr>From = ''Car'', To = ''Engine'', RType = ''extends'', Cardinality = ''1''\<rparr>"
  have files: "findGoFiles twoFileWorld = Inr [''a.go'', ''b.go'']"
    by (simp add: twoFileWorld_def)
  have parses: "\<forall>q\<in>set [''a.go'', ''b.go'']. \<exists>decls. ParseFile twoFileWorld q = Inr decls"
    by (simp add: twoFileWorld_def)
  have first: "fst (ParseGoFile twoFileWorld NewUMLGenerator ''a.go'') = embedGen"
    by (simp add: embedGen_eq) (simp add: world_defs eval_defs)
  have r: "?r \<in> set (relations (fst (ParseGoFile twoFileWorld NewUMLGenerator ''a.go'')))"
    unfolding first by (simp add: embedGen_eq)
  have fresh: "\<forall>q\<in>set [''b.go'']. \<forall>decls. ParseFile twoFileWorld q = Inr decls \<longrightarrow>
        set (declaredTypes decls) \<inter>
          (dom (structs (fst (ParseGoFile twoFileWorld NewUMLGenerator ''a.go''))) \<union>
           dom (interfaces (fst (ParseGoFile twoFileWorld NewUMLGenerator ''a.go'')))) = {}"
    unfolding first by (simp add: embedGen_eq world_defs declaredTypes_def declaredIn_def)
  have ranges: "ranges_ok twoFileWorld NewUMLGenerator [''a.go'', ''b.go'']"
    by (simp add: world_defs eval_defs range_ok_def is_range_def) blast
  note inst = C10_relations_accumulate[where q = "''a.go''" and decls = embedDecls
      and g' = NewUMLGenerator and g = NewUMLGenerator and ks = "[]" and iks = "[]",
      OF files parses r fresh ranges]
  from inst[THEN conjunct2, THEN conjunct1]
    inst[THEN conjunct2, THEN conjunct2, THEN conjunct1]
    inst[THEN conjunct2, THEN conjunct2, THEN conjunct2, THEN conjunct1]
  show ?thesis unfolding first by (simp add: twoFileGen_def relationLine_def embedGen_eq)
qed

section \<open>The order of the map loops in the text\<close>

lemma is_range_mset: "is_range m ks \<Longrightarrow> is_range m ks' \<Longrightarrow> mset ks = mset ks'"
  unfolding is_range_def by (metis set_eq_iff_mset_eq_distinct)

lemma mset_concat_rangeOver:
  "mset (concat (rangeOver m ks body)) =
     (\<Sum>k\<in>#mset ks. mset (case m k of None \<Rightarrow> [] | Some v \<Rightarrow> body k v))"
  by (induction ks) (simp_all add: rangeOver_def)

lemma mset_rangeOver:
  "mset ks = mset ks' \<Longrightarrow> mset (rangeOver m ks body) = mset (rangeOver m ks' body)"
  unfolding rangeOver_def by (metis mset_map)

lemma mset_concat_cong: "mset xss = mset yss \<Longrightarrow> mset (concat xss) = mset (concat yss)"
  by (metis mset_concat mset_map sum_mset_sum_list)

lemma mset_concat_rangeOver_cong:
  assumes "mset ks = mset ks'"
    and "\<And>k v. k \<in> set ks \<Longrightarrow> m k = Some v \<Longrightarrow> mset (body k v) = mset (body' k v)"
  shows "mset (concat (rangeOver m ks body)) = mset (concat (rangeOver m ks' body'))"
proof -
  have "(\<Sum>k\<in>#mset ks. mset (case m k of None \<Rightarrow> [] | Some v \<Rightarrow> body k v)) =
        (\<Sum>k\<in>#mset ks. mset (case m k of None \<Rightarrow> [] | Some v \<Rightarrow> body' k v))"
    by (rule arg_cong[where f = sum_mset], rule image_mset_cong)
       (auto simp: assms(2) split: option.splits)
  then show ?thesis unfolding mset_concat_rangeOver assms(1)[symmetric] .
qed

lemma memberRelations_mset:
  "is_range (structs g) ks \<Longrightarrow> is_range (structs g) ks' \<Longrightarrow>
     mset (memberRelations g ks) = mset (memberRelations g ks')"
  unfolding memberRelations_def
  by (rule mset_concat_rangeOver_cong[OF is_range_mset]) simp_all

lemma memberRelations_v2_mset:
  "is_range (structs g) ks \<Longrightarrow> is_range (structs g) ks' \<Longrightarrow>
     mset (memberRelations_v2 g ks) = mset (memberRelations_v2 g ks')"
  unfolding memberRelations_v2_def
  by (rule mset_concat_rangeOver_cong[OF is_range_mset]) simp_all

lemma satisfactionRelations_mset:
  assumes "range_ok g ord" and "range_ok g ord'"
  shows "mset (satisfactionRelations g (satisfactionStructs ord) (satisfactionInterfaces ord)) =
         mset (satisfactionRelations g (satisfactionStructs ord') (satisfactionInterfaces ord'))"
  unfolding satisfactionRelations_def
proof (rule mset_concat_rangeOver_cong)
  show "mset (satisfactionStructs ord) = mset (satisfactionStructs ord')"
    using assms by (auto simp: range_ok_def intro: is_range_mset)
next
  fix k v assume k: "k \<in> set (satisfactionStructs ord)" and v: "structs g k = Some v"
  from assms(1) k have a: "is_range (interfaces g) (satisfactionInterfaces ord k)"
    by (simp add: range_ok_def list_all_iff)
  from assms k have "k \<in> set (satisfactionStructs ord')"
    by (simp add: range_ok_def is_range_def)
  with assms(2) have b: "is_range (interfaces g) (satisfactionInterfaces ord' k)"
    by (simp add: range_ok_def list_all_iff)
  show "mset (concat (rangeOver (interfaces g) (satisfactionInterfaces ord k)
          (\<lambda>interfaceName interfaceInfo.
             if implementsInterface v interfaceInfo \<and> length (IMethods interfaceInfo) > 0
             then [\<lparr>From = k, To = interfaceName, RType = ''implements'',
                    Cardinality = ''''\<rparr>]
             else []))) =
        mset (concat (rangeOver (interfaces g) (satisfactionInterfaces ord' k)
          (\<lambda>interfaceName interfaceInfo.
             if implementsInterface v interfaceInfo \<and> length (IMethods interfaceInfo) > 0
             then [\<lparr>From = k, To = interfaceName, RType = ''implements'',
                    Cardinality = ''''\<rparr>]
             else [])))"
    by (rule mset_concat_rangeOver_cong[OF is_range_mset[OF a b]]) simp
qed

lemma inferred_mset:
  assumes "range_ok g ord" and "range_ok g ord'"
  shows "mset (inferred ord g) = mset (inferred ord' g)"
proof -
  have "mset (memberRelations g (memberStructs ord)) = mset (memberRelations g (memberStructs ord'))"
    using assms by (auto simp: range_ok_def intro: memberRelations_mset)
  with satisfactionRelations_mset[OF assms] show ?thesis by (simp add: inferred_def)
qed

lemma inferred_v2_mset:
  assumes "range_ok g ord" and "range_ok g ord'"
  shows "mset (inferred_v2 ord g) = mset (inferred_v2 ord' g)"
proof -
  have "mset (memberRelations_v2 g (memberStructs ord)) =
        mset (memberRelations_v2 g (memberStructs ord'))"
    using assms by (auto simp: range_ok_def intro: memberRelations_v2_mset)
  with satisfactionRelations_mset[OF assms] show ?thesis by (simp add: inferred_v2_def)
qed

lemma processTypeSpec_with_rel:
  "processTypeSpec_with gts (g\<lparr>relations := R\<rparr>) n ty =
     (processTypeSpec_with gts g n ty)\<lparr>relations := R\<rparr>"
  by (simp add: processTypeSpec_with_def split: Expr.splits)

lemma processSpec_with_rel:
  "processSpec_with gts (g\<lparr>relations := R\<rparr>) spec = (processSpec_with gts g spec)\<lparr>relations := R\<rparr>"
  by (simp add: processSpec_with_def processTypeSpec_with_rel split: Spec.splits)

lemma foldl_rel:
  "(\<And>g x. f (g\<lparr>relations := R\<rparr>) x = (f g x)\<lparr>relations := R\<rparr>) \<Longrightarrow>
     foldl f (g\<lparr>relations := R\<rparr>) xs = (foldl f g xs)\<lparr>relations := R\<rparr>"
  by (induction xs arbitrary: g) simp_all

lemma processMethod_with_rel:
  "processMethod_with gts (g\<lparr>relations := R\<rparr>) recv n ps rs =
     (processMethod_with gts g recv n ps rs)\<lparr>relations := R\<rparr>"
  by (simp add: processMethod_with_def Let_def split: option.splits list.splits)

lemma processDecl_with_rel:
  "processDecl_with gts (g\<lparr>relations := R\<rparr>) d = (processDecl_with gts g d)\<lparr>relations := R\<rparr>"
  by (cases d) (simp_all add: processDecl_with_def foldl_rel processSpec_with_rel
      processMethod_with_rel)

lemma extraction_registry:
  assumes "structs g' = structs g" and "interfaces g' = interfaces g"
  shows "structs (foldl processDecl g' ds) = structs (foldl processDecl g ds) \<and>
         interfaces (foldl processDecl g' ds) = interfaces (foldl processDecl g ds)"
proof -
  have "g' = g\<lparr>relations := relations g'\<rparr>" using assms by (cases g, cases g') simp
  then have "foldl processDecl g' ds = (foldl processDecl g ds)\<lparr>relations := relations g'\<rparr>"
    unfolding processDecl_def using foldl_rel[of "processDecl_with getTypeString", OF processDecl_with_rel]
    by metis
  then show ?thesis by simp
qed


lemma parseFiles_perm:
  assumes PF: "ParseFile w' = ParseFile w"
  shows "structs g' = structs g \<Longrightarrow> interfaces g' = interfaces g \<Longrightarrow>
     mset (relations g') = mset (relations g) \<Longrightarrow>
     ranges_ok w g ps \<Longrightarrow> ranges_ok w' g' ps \<Longrightarrow>
     snd (parseFiles w' g' ps) = snd (parseFiles w g ps) \<and>
     structs (fst (parseFiles w' g' ps)) = structs (fst (parseFiles w g ps)) \<and>
     interfaces (fst (parseFiles w' g' ps)) = interfaces (fst (parseFiles w g ps)) \<and>
     mset (relations (fst (parseFiles w' g' ps))) = mset (relations (fst (parseFiles w g ps)))"
proof (induction ps arbitrary: g g')
  case Nil
  then show ?case by simp
next
  case (Cons p ps)
  show ?case
  proof (cases "ParseFile w p")
    case (Inl e)
    then have "ParseFile w' p = Inl e" by (simp add: PF)
    with Inl Cons.prems(1-3) show ?thesis
      unfolding parseFiles_Cons_Inl[OF Inl] parseFiles_Cons_Inl[OF \<open>ParseFile w' p = Inl e\<close>]
      by simp
  next
    case (Inr decls)
    then have Inr': "ParseFile w' p = Inr decls" by (simp add: PF)
    let ?g1 = "foldl processDecl g decls" and ?g1' = "foldl processDecl g' decls"
    let ?g2 = "identifyRelations (rangeOrder w p) ?g1"
    let ?g2' = "identifyRelations (rangeOrder w' p) ?g1'"
    from extraction_registry[OF Cons.prems(1,2)]
    have reg: "structs ?g1' = structs ?g1" "interfaces ?g1' = interfaces ?g1" by simp_all
    have rel: "relations ?g1 = relations g" "relations ?g1' = relations g'"
      using extraction_evolves by (rule evolves_relations)+
    from Cons.prems(4) Inr have ok: "range_ok ?g1 (rangeOrder w p)" and rest: "ranges_ok w ?g2 ps"
      by (simp_all add: ParseGoFile_Inr)
    from Cons.prems(5) Inr' have ok1: "range_ok ?g1' (rangeOrder w' p)"
      and rest': "ranges_ok w' ?g2' ps"
      by (simp_all add: ParseGoFile_Inr)
    from ok1 have ok': "range_ok ?g1 (rangeOrder w' p)"
      unfolding range_ok_cong[OF reg] .
    have "inferred (rangeOrder w' p) ?g1' = inferred (rangeOrder w' p) ?g1"
      using reg by (rule inferred_cong)
    also have "mset \<dots> = mset (inferred (rangeOrder w p) ?g1)"
      using ok' ok by (rule inferred_mset)
    finally have inf: "mset (inferred (rangeOrder w' p) ?g1') =
        mset (inferred (rangeOrder w p) ?g1)" .
    have s2: "structs ?g2' = structs ?g2" and i2: "interfaces ?g2' = interfaces ?g2"
      using reg by simp_all
    have r2: "mset (relations ?g2') = mset (relations ?g2)"
      using inf Cons.prems(3) by (simp add: rel)
    from Cons.IH[OF s2 i2 r2 rest rest'] show ?thesis
      unfolding parseFiles_Cons_Inr[OF Inr] parseFiles_Cons_Inr[OF Inr'] .
  qed
qed

lemma rendering_mset:
  assumes "is_range (structs g) ks" and "is_range (structs g) ks'"
    and "is_range (interfaces g) iks" and "is_range (interfaces g) iks'"
    and s: "structs g' = structs g" and i: "interfaces g' = interfaces g"
    and r: "mset (relations g') = mset (relations g)"
  shows "mset (classBlocks g' ks') = mset (classBlocks g ks)"
    and "mset (interfaceBlocks g' iks') = mset (interfaceBlocks g iks)"
    and "mset (map relationLine (relations g')) = mset (map relationLine (relations g))"
    and "mset (GeneratePlantUML ks' iks' g') = mset (GeneratePlantUML ks iks g)"
    and "mset (GeneratePlantUML_v2 ks' iks' g') = mset (GeneratePlantUML_v2 ks iks g)"
proof -
  have k: "mset ks' = mset ks" and ik: "mset iks' = mset iks"
    using assms(1-4) by (auto intro: is_range_mset)
  show c: "mset (classBlocks g' ks') = mset (classBlocks g ks)"
    unfolding classBlocks_def s by (rule mset_rangeOver[OF k])
  show ib: "mset (interfaceBlocks g' iks') = mset (interfaceBlocks g iks)"
    unfolding interfaceBlocks_def i by (rule mset_rangeOver[OF ik])
  show l: "mset (map relationLine (relations g')) = mset (map relationLine (relations g))"
    using r by simp
  have l2: "mset (map relationLine_v2 (relations g')) = mset (map relationLine_v2 (relations g))"
    using r by simp
  show "mset (GeneratePlantUML ks' iks' g') = mset (GeneratePlantUML ks iks g)"
    unfolding GeneratePlantUML_def
    by (simp add: mset_concat_cong[OF c] mset_concat_cong[OF ib] mset_concat_cong[OF l])
  show "mset (GeneratePlantUML_v2 ks' iks' g') = mset (GeneratePlantUML_v2 ks iks g)"
    unfolding GeneratePlantUML_v2_def s i
    by (simp add: mset_concat_cong[OF mset_rangeOver[OF k]]
        mset_concat_cong[OF mset_rangeOver[OF ik]] mset_concat_cong[OF l2])
qed

text \<open>
  C2 (as amended). The text is a function of the model and of the orders in which the two
  map loops of the renderer visit the registry: it is the header, the class blocks in the
  order of the struct loop, the interface blocks in the order of the interface loop, the
  lines of the relation list in list order, and the footer. Two models with the same
  registries and the same relation list give the same text under the same orders. Under
  two orders that both visit the registry, the class blocks are the same up to their
  order, and so are the interface blocks, and the two texts are made of the same
  characters; nothing is sorted. The relations one inference call appends are the same up
  to order whatever the orders of its loops. Rebuilding does not depend on the generator
  it starts from, and two rebuilds of one directory with the same parse results, under map
  orders that may differ, end with the same error, the same registries and relation lists
  that are permutations of one another.
\<close>

theorem C2_rendering_up_to_order:
  "(GeneratePlantUML ks iks g =
      ''@startuml'' @ nl @ nl @ concat (classBlocks g ks) @ concat (interfaceBlocks g iks) @
      concat (map relationLine (relations g)) @ nl @ ''@enduml'') \<and>
   (is_range (structs g) ks \<longrightarrow> is_range (structs g) ks' \<longrightarrow>
    is_range (interfaces g) iks \<longrightarrow> is_range (interfaces g) iks' \<longrightarrow>
      mset (classBlocks g ks') = mset (classBlocks g ks) \<and>
      mset (interfaceBlocks g iks') = mset (interfaceBlocks g iks) \<and>
      mset (GeneratePlantUML ks' iks' g) = mset (GeneratePlantUML ks iks g) \<and>
      mset (GeneratePlantUML_v2 ks' iks' g) = mset (GeneratePlantUML_v2 ks iks g)) \<and>
   (structs g' = structs g \<longrightarrow> interfaces g' = interfaces g \<longrightarrow> relations g' = relations g \<longrightarrow>
      GeneratePlantUML ks iks g' = GeneratePlantUML ks iks g \<and>
      GeneratePlantUML_v2 ks iks g' = GeneratePlantUML_v2 ks iks g) \<and>
   (range_ok g ord \<longrightarrow> range_ok g ord' \<longrightarrow>
      mset (inferred ord' g) = mset (inferred ord g) \<and>
      mset (inferred_v2 ord' g) = mset (inferred_v2 ord g)) \<and>
   GenerateUMLFromDirectory w g1 = GenerateUMLFromDirectory w g2 \<and>
   (findGoFiles w = Inr ps \<longrightarrow> findGoFiles w' = Inr ps \<longrightarrow> ParseFile w' = ParseFile w \<longrightarrow>
    ranges_ok w NewUMLGenerator ps \<longrightarrow> ranges_ok w' NewUMLGenerator ps \<longrightarrow>
      snd (GenerateUMLFromDirectory w' g2) = snd (GenerateUMLFromDirectory w g1) \<and>
      structs (fst (GenerateUMLFromDirectory w' g2)) =
        structs (fst (GenerateUMLFromDirectory w g1)) \<and>
      interfaces (fst (GenerateUMLFromDirectory w' g2)) =
        interfaces (fst (GenerateUMLFromDirectory w g1)) \<and>
      mset (relations (fst (GenerateUMLFromDirectory w' g2))) =
        mset (relations (fst (GenerateUMLFromDirectory w g1))) \<and>
      (is_range (structs (fst (GenerateUMLFromDirectory w g1))) ks \<longrightarrow>
       is_range (structs (fst (GenerateUMLFromDirectory w g1))) ks' \<longrightarrow>
       is_range (interfaces (fst (GenerateUMLFromDirectory w g1))) iks \<longrightarrow>
       is_range (interfaces (fst (GenerateUMLFromDirectory w g1))) iks' \<longrightarrow>
         mset (GeneratePlantUML ks' iks' (fst (GenerateUMLFromDirectory w' g2))) =
         mset (GeneratePlantUML ks iks (fst (GenerateUMLFromDirectory w g1)))))"
proof -
  have a: "GeneratePlantUML ks iks g =
      ''@startuml'' @ nl @ nl @ concat (classBlocks g ks) @ concat (interfaceBlocks g iks) @
      concat (map relationLine (relations g)) @ nl @ ''@enduml''"
    by (simp add: GeneratePlantUML_def)
  have b: "mset (classBlocks g ks') = mset (classBlocks g ks) \<and>
      mset (interfaceBlocks g iks') = mset (interfaceBlocks g iks) \<and>
      mset (GeneratePlantUML ks' iks' g) = mset (GeneratePlantUML ks iks g) \<and>
      mset (GeneratePlantUML_v2 ks' iks' g) = mset (GeneratePlantUML_v2 ks iks g)"
    if "is_range (structs g) ks" "is_range (structs g) ks'"
       "is_range (interfaces g) iks" "is_range (interfaces g) iks'"
    using rendering_mset[OF that refl refl refl] by simp
  have c: "mset (inferred ord' g) = mset (inferred ord g) \<and>
      mset (inferred_v2 ord' g) = mset (inferred_v2 ord g)"
    if "range_ok g ord" "range_ok g ord'"
    using inferred_mset[OF that(2,1)] inferred_v2_mset[OF that(2,1)] by simp
  have d: "GenerateUMLFromDirectory w g1 = GenerateUMLFromDirectory w g2"
    by (rule GenerateUMLFromDirectory_fresh)
  have e: "snd (GenerateUMLFromDirectory w' g2) = snd (GenerateUMLFromDirectory w g1) \<and>
      structs (fst (GenerateUMLFromDirectory w' g2)) =
        structs (fst (GenerateUMLFromDirectory w g1)) \<and>
      interfaces (fst (GenerateUMLFromDirectory w' g2)) =
        interfaces (fst (GenerateUMLFromDirectory w g1)) \<and>
      mset (relations (fst (GenerateUMLFromDirectory w' g2))) =
        mset (relations (fst (GenerateUMLFromDirectory w g1))) \<and>
      (is_range (structs (fst (GenerateUMLFromDirectory w g1))) ks \<longrightarrow>
       is_range (structs (fst (GenerateUMLFromDirectory w g1))) ks' \<longrightarrow>
       is_range (interfaces (fst (GenerateUMLFromDirectory w g1))) iks \<longrightarrow>
       is_range (interfaces (fst (GenerateUMLFromDirectory w g1))) iks' \<longrightarrow>
         mset (GeneratePlantUML ks' iks' (fst (GenerateUMLFromDirectory w' g2))) =
         mset (GeneratePlantUML ks iks (fst (GenerateUMLFromDirectory w g1))))"
    if f: "findGoFiles w = Inr ps" "findGoFiles w' = Inr ps" and PF: "ParseFile w' = ParseFile w"
      and ok: "ranges_ok w NewUMLGenerator ps" "ranges_ok w' NewUMLGenerator ps"
  proof -
    from parseFiles_perm[OF PF refl refl refl ok]
    have p: "snd (GenerateUMLFromDirectory w' g2) = snd (GenerateUMLFromDirectory w g1)"
      "structs (fst (GenerateUMLFromDirectory w' g2)) =
        structs (fst (GenerateUMLFromDirectory w g1))"
      "interfaces (fst (GenerateUMLFromDirectory w' g2)) =
        interfaces (fst (GenerateUMLFromDirectory w g1))"
      "mset (relations (fst (GenerateUMLFromDirectory w' g2))) =
        mset (relations (fst (GenerateUMLFromDirectory w g1)))"
      unfolding GenerateUMLFromDirectory_Inr[OF f(1)] GenerateUMLFromDirectory_Inr[OF f(2)]
      by simp_all
    have "mset (GeneratePlantUML ks' iks' (fst (GenerateUMLFromDirectory w' g2))) =
         mset (GeneratePlantUML ks iks (fst (GenerateUMLFromDirectory w g1)))"
      if "is_range (structs (fst (GenerateUMLFromDirectory w g1))) ks"
       "is_range (structs (fst (GenerateUMLFromDirectory w g1))) ks'"
       "is_range (interfaces (fst (GenerateUMLFromDirectory w g1))) iks"
       "is_range (interfaces (fst (GenerateUMLFromDirectory w g1))) iks'"
      using that p(2,3,4) by (rule rendering_mset(4))
    with p show ?thesis by blast
  qed
  have same: "GeneratePlantUML ks iks g' = GeneratePlantUML ks iks g \<and>
      GeneratePlantUML_v2 ks iks g' = GeneratePlantUML_v2 ks iks g"
    if "structs g' = structs g" "interfaces g' = interfaces g" "relations g' = relations g"
  proof -
    from that have "g' = g" by (cases g, cases g') simp
    then show ?thesis by simp
  qed
  from a b same c d e show ?thesis by blast
qed

lemma twoFileRev_eq:
  "fst (GenerateUMLFromDirectory twoFileWorld_rev NewUMLGenerator) =
     \<lparr>structs = [''Engine'' \<mapsto> \<lparr>SName = ''Engine'', Fields = [], Methods = []\<rparr>,
                 ''Car'' \<mapsto> \<lparr>SName = ''Car'',
                             Fields = [\<lparr>FName = ''Engine'', FType = ''Engine''\<rparr>],
                             Methods = []\<rparr>,
                 ''Holder'' \<mapsto> \<lparr>SName = ''Holder'',
                                Fields = [\<lparr>FName = ''m'', FType = ''Marker''\<rparr>], Methods = []\<rparr>],
      interfaces = [''Marker'' \<mapsto> \<lparr>IName = ''Marker'', IMethods = []\<rparr>],
      relations =
        [\<lparr>From = ''Car'', To = ''Engine'', RType = ''extends'', Cardinality = ''1''\<rparr>,
         \<lparr>From = ''Holder'', To = ''Marker'', RType = ''implements'', Cardinality = ''''\<rparr>,
         \<lparr>From = ''Car'', To = ''Engine'', RType = ''extends'', Cardinality = ''1''\<rparr>]\<rparr>"
  by (simp add: GenerateUMLFromDirectory_def Reset_def twoFileWorld_rev_def reversedOrder_def
      world_defs eval_defs)

lemma twoFile_ranges:
  "ranges_ok twoFileWorld NewUMLGenerator [''a.go'', ''b.go'']"
  "ranges_ok twoFileWorld_rev NewUMLGenerator [''a.go'', ''b.go'']"
  by (simp add: twoFileWorld_rev_def reversedOrder_def world_defs eval_defs range_ok_def
      is_range_def; blast)+

lemma embed_ranges:
  "is_range (structs embedGen) [''Engine'', ''Car'']"
  "is_range (structs embedGen) [''Car'', ''Engine'']"
  "is_range (interfaces embedGen) []"
  "is_range (structs embedGen_v2) [''Engine'', ''Car'']"
  "is_range (structs embedGen_v2) [''Car'', ''Engine'']"
  "is_range (interfaces embedGen_v2) []"
  by (auto simp: embedGen_eq embedGen_v2_eq is_range_def)

text \<open>
  C2 as stated fails on \<open>Engine\<close> and \<open>Car\<close>, rendered with the struct loop in the one
  order and in the other: the texts differ, in both variants. And two rebuilds of the directory with \<open>a.go\<close> and
  \<open>b.go\<close> whose inference loops run in different orders after \<open>b.go\<close> give texts that
  differ although the renderer's loops run in the same order.
\<close>

theorem C2_counterexample:
  "is_range (structs embedGen) [''Engine'', ''Car''] \<and>
   is_range (structs embedGen) [''Car'', ''Engine''] \<and>
   is_range (interfaces embedGen) [] \<and>
   GeneratePlantUML [''Engine'', ''Car''] [] embedGen \<noteq>
     GeneratePlantUML [''Car'', ''Engine''] [] embedGen \<and>
   is_range (structs embedGen_v2) [''Engine'', ''Car''] \<and>
   is_range (structs embedGen_v2) [''Car'', ''Engine''] \<and>
   is_range (interfaces embedGen_v2) [] \<and>
   GeneratePlantUML_v2 [''Engine'', ''Car''] [] embedGen_v2 \<noteq>
     GeneratePlantUML_v2 [''Car'', ''Engine''] [] embedGen_v2 \<and>
   findGoFiles twoFileWorld_rev = findGoFiles twoFileWorld \<and>
   ParseFile twoFileWorld_rev = ParseFile twoFileWorld \<and>
   ranges_ok twoFileWorld NewUMLGenerator [''a.go'', ''b.go''] \<and>
   ranges_ok twoFileWorld_rev NewUMLGenerator [''a.go'', ''b.go''] \<and>
   GeneratePlantUML [''Engine'', ''Car'', ''Holder''] [''Marker'']
       (fst (GenerateUMLFromDirectory twoFileWorld_rev NewUMLGenerator)) \<noteq>
     GeneratePlantUML [''Engine'', ''Car'', ''Holder''] [''Marker'']
       (fst (GenerateUMLFromDirectory twoFileWorld NewUMLGenerator))"
proof -
  have a: "GeneratePlantUML [''Engine'', ''Car''] [] embedGen \<noteq>
     GeneratePlantUML [''Car'', ''Engine''] [] embedGen"
    by (simp add: embedGen_eq GeneratePlantUML_def classBlocks_def interfaceBlocks_def
        rangeOver_def classBlock_def fieldLines_def)
  have b: "GeneratePlantUML_v2 [''Engine'', ''Car''] [] embedGen_v2 \<noteq>
     GeneratePlantUML_v2 [''Car'', ''Engine''] [] embedGen_v2"
    by (simp add: embedGen_v2_eq GeneratePlantUML_v2_def rangeOver_def classBlock_v2_def
        fieldLines_v2_def)
  have c: "findGoFiles twoFileWorld_rev = findGoFiles twoFileWorld"
    "ParseFile twoFileWorld_rev = ParseFile twoFileWorld"
    by (simp_all add: twoFileWorld_rev_def twoFileWorld_def)
  have d: "GeneratePlantUML [''Engine'', ''Car'', ''Holder''] [''Marker'']
       (fst (GenerateUMLFromDirectory twoFileWorld_rev NewUMLGenerator)) \<noteq>
     GeneratePlantUML [''Engine'', ''Car'', ''Holder''] [''Marker'']
       (fst (GenerateUMLFromDirectory twoFileWorld NewUMLGenerator))"
    unfolding twoFileRev_eq twoFileGen_def[symmetric] twoFileGen_eq
    by (simp add: GeneratePlantUML_def classBlocks_def interfaceBlocks_def
        rangeOver_def relationLine_def)
  from a b c d embed_ranges twoFile_ranges show ?thesis by simp
qed

text \<open>C2 on \<open>Engine\<close> and \<open>Car\<close> under the two orders of the struct loop, and on the
  directory with \<open>a.go\<close> and \<open>b.go\<close> rebuilt under two orders of the inference loops.\<close>

theorem C2_witness:
  "mset (classBlocks embedGen [''Car'', ''Engine'']) =
     mset (classBlocks embedGen [''Engine'', ''Car'']) \<and>
   mset (GeneratePlantUML [''Car'', ''Engine''] [] embedGen) =
     mset (GeneratePlantUML [''Engine'', ''Car''] [] embedGen) \<and>
   GeneratePlantUML [''Engine'', ''Car''] []
       (fst (ParseGoFile twoFileWorld NewUMLGenerator ''a.go'')) =
     GeneratePlantUML [''Engine'', ''Car''] [] embedGen \<and>
   mset (inferred reversedOrder twoFileGen) = mset (inferred twoFileOrder twoFileGen) \<and>
   mset (relations (fst (GenerateUMLFromDirectory twoFileWorld_rev NewUMLGenerator))) =
     mset (relations (fst (GenerateUMLFromDirectory twoFileWorld NewUMLGenerator))) \<and>
   mset (GeneratePlantUML [''Holder'', ''Car'', ''Engine''] [''Marker'']
          (fst (GenerateUMLFromDirectory twoFileWorld_rev NewUMLGenerator))) =
     mset (GeneratePlantUML [''Engine'', ''Car'', ''Holder''] [''Marker'']
          (fst (GenerateUMLFromDirectory twoFileWorld NewUMLGenerator)))"
proof -
  have f: "findGoFiles twoFileWorld = Inr [''a.go'', ''b.go'']"
    "findGoFiles twoFileWorld_rev = Inr [''a.go'', ''b.go'']"
    "ParseFile twoFileWorld_rev = ParseFile twoFileWorld"
    by (simp_all add: twoFileWorld_rev_def twoFileWorld_def)
  have r: "range_ok twoFileGen twoFileOrder" "range_ok twoFileGen reversedOrder"
    by (simp add: twoFileGen_eq twoFileOrder_def reversedOrder_def range_ok_def is_range_def;
        blast)+
  have t: "is_range (structs (fst (GenerateUMLFromDirectory twoFileWorld NewUMLGenerator)))
        [''Engine'', ''Car'', ''Holder'']"
    "is_range (structs (fst (GenerateUMLFromDirectory twoFileWorld NewUMLGenerator)))
        [''Holder'', ''Car'', ''Engine'']"
    "is_range (interfaces (fst (GenerateUMLFromDirectory twoFileWorld NewUMLGenerator)))
        [''Marker'']"
    unfolding twoFileGen_def[symmetric]
    by (simp add: twoFileGen_eq is_range_def; blast)+
  have m: "structs (fst (ParseGoFile twoFileWorld NewUMLGenerator ''a.go'')) = structs embedGen"
    "interfaces (fst (ParseGoFile twoFileWorld NewUMLGenerator ''a.go'')) = interfaces embedGen"
    "relations (fst (ParseGoFile twoFileWorld NewUMLGenerator ''a.go'')) = relations embedGen"
    by (simp_all add: embedGen_eq) (simp_all add: world_defs eval_defs)
  note one = C2_rendering_up_to_order[where g = embedGen and ks = "[''Engine'', ''Car'']"
      and ks' = "[''Car'', ''Engine'']" and iks = "[]" and iks' = "[]"
      and g' = "fst (ParseGoFile twoFileWorld NewUMLGenerator ''a.go'')"]
  from one[THEN conjunct2, THEN conjunct2, THEN conjunct1] m
  have D: "GeneratePlantUML [''Engine'', ''Car''] []
       (fst (ParseGoFile twoFileWorld NewUMLGenerator ''a.go'')) =
     GeneratePlantUML [''Engine'', ''Car''] [] embedGen"
    by simp
  note two = C2_rendering_up_to_order[where g = twoFileGen and ord = twoFileOrder
      and ord' = reversedOrder and w = twoFileWorld and w' = twoFileWorld_rev
      and ps = "[''a.go'', ''b.go'']" and ?g1.0 = NewUMLGenerator and ?g2.0 = NewUMLGenerator
      and ks = "[''Engine'', ''Car'', ''Holder'']" and ks' = "[''Holder'', ''Car'', ''Engine'']"
      and iks = "[''Marker'']" and iks' = "[''Marker'']"]
  from one[THEN conjunct2, THEN conjunct1] embed_ranges(1-3)
  have A: "mset (classBlocks embedGen [''Car'', ''Engine'']) =
     mset (classBlocks embedGen [''Engine'', ''Car'']) \<and>
   mset (GeneratePlantUML [''Car'', ''Engine''] [] embedGen) =
     mset (GeneratePlantUML [''Engine'', ''Car''] [] embedGen)"
    by simp
  from two[THEN conjunct2, THEN conjunct2, THEN conjunct2, THEN conjunct1] r
  have B: "mset (inferred reversedOrder twoFileGen) = mset (inferred twoFileOrder twoFileGen)"
    by simp
  from two[THEN conjunct2, THEN conjunct2, THEN conjunct2, THEN conjunct2, THEN conjunct2]
    f twoFile_ranges t
  have C: "mset (relations (fst (GenerateUMLFromDirectory twoFileWorld_rev NewUMLGenerator))) =
     mset (relations (fst (GenerateUMLFromDirectory twoFileWorld NewUMLGenerator))) \<and>
   mset (GeneratePlantUML [''Holder'', ''Car'', ''Engine''] [''Marker'']
          (fst (GenerateUMLFromDirectory twoFileWorld_rev NewUMLGenerator))) =
     mset (GeneratePlantUML [''Engine'', ''Car'', ''Holder''] [''Marker'']
          (fst (GenerateUMLFromDirectory twoFileWorld NewUMLGenerator)))"
    by simp
  from A D B C show ?thesis by simp
qed

end
